theory Spec2Isabelle
  imports Complex_Main "HOL-Library.Code_Target_Nat"
begin

section \<open>JavaScript values used by server.js\<close>

text \<open>
  A JavaScript string is a sequence of UTF-16 code units; \<open>length\<close>, \<open>substring\<close>,
  \<open>split\<close> and \<open>trim\<close> all count and inspect code units. A code unit is modelled by its
  number, so that the non-ASCII glyphs of the rendered text (U+2013, U+2026, ...) are single
  elements, as they are in the source.
\<close>

type_synonym jsstring = "nat list"

definition lit :: "string \<Rightarrow> jsstring" where
  "lit s = map of_char s"

text \<open>
  A finite JavaScript number is modelled by a rational, and arithmetic on it is exact. The
  only arithmetic server.js does on numbers is \<open>offset + chunkSize\<close>, \<open>offset + chunk.length\<close>,
  \<open>Math.min\<close>, \<open>Math.round(score * 100) / 100\<close> and comparisons. The scripts compute in
  double precision. Their sums are the exact ones for integers below \<open>2^53\<close> and for the
  halves used in the examples, and an integer sum that is rounded lies beyond the end of
  any text, where \<open>substring\<close> clamps it to the same index. For arguments that are not
  integers a double sum can cross an integer that the exact sum does not reach
  (\<open>4 + 1.9999999999999998\<close> is 6), and a rounded score can differ in its last digit: the
  theorems below that depend on a sum are stated for integer arguments, and none depends on
  a score. \<open>NaN\<close> is not a value of the model: every \<open>Number(x) || d\<close> of the source replaces
  it by the default before it is used.
\<close>

type_synonym jsnum = rat

definition num_or :: "jsnum option \<Rightarrow> jsnum \<Rightarrow> jsnum" where
  \<comment> \<open>\<open>Number(x) || d\<close> for a parameter with default \<open>d\<close>: an omitted argument takes the default,
      and the falsy number 0 is replaced by \<open>d\<close> as well.\<close>
  "num_or x d = (let v = (case x of None \<Rightarrow> d | Some n \<Rightarrow> n) in if v \<noteq> 0 then v else d)"

definition String_of :: "jsstring option \<Rightarrow> jsstring" where
  \<comment> \<open>\<open>String(x)\<close> and \<open>${x}\<close> for a string that may be undefined.\<close>
  "String_of x = (case x of None \<Rightarrow> lit ''undefined'' | Some s \<Rightarrow> s)"

definition ToIntegerOrInfinity :: "jsnum \<Rightarrow> int" where
  \<comment> \<open>truncation towards zero\<close>
  "ToIntegerOrInfinity x = (if x < 0 then - \<lfloor>- x\<rfloor> else \<lfloor>x\<rfloor>)"

definition substring :: "'a list \<Rightarrow> jsnum \<Rightarrow> jsnum \<Rightarrow> 'a list" where
  \<comment> \<open>\<open>String.prototype.substring(start, end)\<close>: both indices are truncated, clamped to
      \<open>[0, length]\<close> and swapped when start exceeds end.\<close>
  "substring s start finish =
     (let len = int (length s);
          intStart = ToIntegerOrInfinity start;
          intEnd = ToIntegerOrInfinity finish;
          finalStart = min (max intStart 0) len;
          finalEnd = min (max intEnd 0) len;
          from = min finalStart finalEnd;
          to = max finalStart finalEnd
      in take (nat (to - from)) (drop (nat from) s))"

definition is_space :: "nat \<Rightarrow> bool" where
  \<comment> \<open>WhiteSpace and LineTerminator code units, the ones \<open>trim\<close> strips\<close>
  "is_space c \<longleftrightarrow>
     c \<in> {9, 10, 11, 12, 13, 32, 160, 5760, 8232, 8233, 8239, 8287, 12288, 65279}
     \<or> (8192 \<le> c \<and> c \<le> 8202)"

definition trim :: "jsstring \<Rightarrow> jsstring" where
  "trim s = rev (dropWhile is_space (rev (dropWhile is_space s)))"

fun is_prefix :: "'a list \<Rightarrow> 'a list \<Rightarrow> bool" where
  "is_prefix [] ys = True"
| "is_prefix (x # xs) [] = False"
| "is_prefix (x # xs) (y # ys) = (x = y \<and> is_prefix xs ys)"

fun split_from :: "'a list \<Rightarrow> 'a list \<Rightarrow> 'a list \<Rightarrow> 'a list list" where
  \<comment> \<open>the scan of \<open>split\<close> for a non-empty separator: \<open>acc\<close> is the piece read so far\<close>
  "split_from sep acc [] = [acc]"
| "split_from sep acc (c # cs) =
     (if sep \<noteq> [] \<and> is_prefix sep (c # cs)
      then acc # split_from sep [] (drop (length sep - 1) cs)
      else split_from sep (acc @ [c]) cs)"

definition split :: "'a list \<Rightarrow> 'a list \<Rightarrow> 'a list list" where
  \<comment> \<open>\<open>s.split(sep)\<close>; the empty separator cuts between all code units\<close>
  "split s sep = (if sep = [] then map (\<lambda>c. [c]) s else split_from sep [] s)"

fun join_with :: "'a list \<Rightarrow> 'a list list \<Rightarrow> 'a list" where
  \<comment> \<open>\<open>pieces.join(sep)\<close>, the operation \<open>split\<close> inverts\<close>
  "join_with sep [] = []"
| "join_with sep [p] = p"
| "join_with sep (p # q # ps) = p @ sep @ join_with sep (q # ps)"

function show_nat :: "nat \<Rightarrow> jsstring" where
  \<comment> \<open>\<open>${n}\<close> for a non-negative integer below \<open>1e21\<close> (a length, a count, \<open>Date.now()\<close>):
      its decimal digits, most significant first\<close>
  "show_nat n = (if n < 10 then [48 + n] else show_nat (n div 10) @ [48 + n mod 10])"
  by pat_completeness auto
termination
  by (relation "measure id") auto

declare show_nat.simps [simp del]


section \<open>The target application, as the scripts see it\<close>

datatype extraction = Throws | Absent | Text jsstring

record dt_record =
  rec_name :: jsstring
  rec_uuid :: jsstring
  rec_location :: jsstring
  rec_database :: jsstring
  rec_score :: jsnum
  rec_type :: jsstring
  plainText :: extraction

definition extracted :: "dt_record \<Rightarrow> jsstring" where
  \<comment> \<open>\<open>var pt = ''; try { pt = r.plainText() || ''; } catch (e) {}\<close>\<close>
  "extracted r = (case plainText r of Throws \<Rightarrow> [] | Absent \<Rightarrow> [] | Text t \<Rightarrow> t)"


section \<open>The chunked-read script (server.js, lines 224-251)\<close>

record content_page =
  page_name :: jsstring
  page_uuid :: jsstring
  page_kind :: jsstring
  content :: jsstring
  offset :: jsnum
  chunk_length :: nat
  total_chars :: nat
  has_more :: bool
  next_offset :: jsnum

definition chunked_read :: "dt_record \<Rightarrow> jsnum \<Rightarrow> jsnum \<Rightarrow> content_page" where
  \<comment> \<open>the body of the script once the record is resolved; the two sums are exact here and
      double sums in the script, the same number for integer arguments\<close>
  "chunked_read r offs chunkSize =
     (let pt = extracted r;
          total = length pt;
          chunk = substring pt offs (offs + chunkSize);
          nextOff = offs + of_nat (length chunk)
      in \<lparr>page_name = rec_name r, page_uuid = rec_uuid r, page_kind = rec_type r,
          content = chunk, offset = offs, chunk_length = length chunk,
          total_chars = total, has_more = (nextOff < of_nat total), next_offset = nextOff\<rparr>)"


section \<open>The search script (server.js, lines 167-202)\<close>

record search_result =
  name :: jsstring
  uuid :: jsstring
  location :: jsstring
  database :: jsstring
  score :: jsnum
  kind :: jsstring
  excerpt :: jsstring

record search_data =
  total :: nat
  returned :: nat
  results :: "search_result list"

definition result_of :: "dt_record \<Rightarrow> jsnum \<Rightarrow> search_result" where
  \<comment> \<open>lines 183-198: the excerpt is cut at \<open>excerptLen\<close> with U+2026 appended, then trimmed;
      the score is \<open>Math.round(r.score() * 100) / 100\<close>, in exact arithmetic here\<close>
  "result_of r excerptLen =
     (let pt = extracted r;
          ex = (if excerptLen < of_nat (length pt) then substring pt 0 excerptLen @ [8230] else pt)
      in \<lparr>name = rec_name r, uuid = rec_uuid r, location = rec_location r,
          database = rec_database r,
          score = of_int \<lfloor>rec_score r * 100 + 1 / 2\<rfloor> / 100,
          kind = rec_type r, excerpt = trim ex\<rparr>)"

fun search_loop ::
  "jsstring option \<Rightarrow> jsnum \<Rightarrow> jsnum \<Rightarrow> dt_record list \<Rightarrow> search_result list \<Rightarrow> search_result list"
where
  \<comment> \<open>\<open>for (var i = 0; i < raw.length && out.length < limit; i++)\<close>, on what is left of \<open>raw\<close>\<close>
  "search_loop dbFilter limit excerptLen [] out = out"
| "search_loop dbFilter limit excerptLen (r # raw) out =
     (if of_nat (length out) < limit
      then (if (case dbFilter of None \<Rightarrow> False | Some d \<Rightarrow> d \<noteq> [] \<and> rec_database r \<noteq> d)
            then search_loop dbFilter limit excerptLen raw out
            else search_loop dbFilter limit excerptLen raw (out @ [result_of r excerptLen]))
      else out)"

definition search_script ::
  "dt_record list \<Rightarrow> jsstring option \<Rightarrow> jsnum \<Rightarrow> jsnum \<Rightarrow> search_data" where
  \<comment> \<open>the body of the script, on the list \<open>raw\<close> that \<open>dt.search(query)\<close> returned\<close>
  "search_script raw dbFilter limit excerptLen =
     (let out = search_loop dbFilter limit excerptLen raw []
      in \<lparr>total = length raw, returned = length out, results = out\<rparr>)"


section \<open>The batch plain-text script (server.js, lines 312-326)\<close>

fun assign :: "(jsstring \<times> jsstring) list \<Rightarrow> jsstring \<Rightarrow> jsstring \<Rightarrow> (jsstring \<times> jsstring) list" where
  \<comment> \<open>\<open>out[k] = v\<close> on an object kept as its list of properties\<close>
  "assign [] k v = [(k, v)]"
| "assign ((k', v') # kvs) k v = (if k' = k then (k, v) # kvs else (k', v') # assign kvs k v)"

fun batch_loop ::
  "(jsstring \<Rightarrow> dt_record option) \<Rightarrow> jsnum \<Rightarrow> jsstring list \<Rightarrow> (jsstring \<times> jsstring) list
   \<Rightarrow> (jsstring \<times> jsstring) list" where
  "batch_loop resolve maxChars [] out = out"
| "batch_loop resolve maxChars (u # uuids) out =
     (let pt = (case resolve u of None \<Rightarrow> [] | Some r \<Rightarrow> extracted r)
      in batch_loop resolve maxChars uuids (assign out u (trim (substring pt 0 maxChars))))"


section \<open>Scripts, the world outside the server, and the state the server changes\<close>

text \<open>
  A script body is a fixed template of server.js with values interpolated: it is identified
  by its template and those values. The list-children template is AppleScript and runs
  in the navigation runtime; what that runtime prints for it is the world's \<open>navigate\<close>.
\<close>

datatype dialect = JavaScript | AppleScript

datatype script =
    SearchScript jsstring "jsstring option" jsnum jsnum
  | ChunkScript jsstring jsnum jsnum
  | ChildrenScript jsstring jsstring jsnum
  | BatchScript "jsstring list" jsnum

datatype printed =
    SearchOut search_data
  | PageOut content_page
  | BatchOut "(jsstring \<times> jsstring) list"
  | TextOut jsstring

datatype failure =
    WriteFailure
  | ProcessFailure
  | TimeoutFailure
  | NotFound jsstring
  | NoEntry
  | TypeError

record world =
  tmpdir :: jsstring
  write_fails :: "jsstring \<Rightarrow> bool"
  elapsed :: "dialect \<Rightarrow> script \<Rightarrow> nat"
  crash :: "dialect \<Rightarrow> script \<Rightarrow> bool"
  message :: "failure \<Rightarrow> jsstring"
  num_str :: "jsnum \<Rightarrow> jsstring"
  search :: "jsstring \<Rightarrow> dt_record list"
  getRecordWithUuid :: "jsstring \<Rightarrow> dt_record option"
  navigate :: "jsstring \<Rightarrow> jsstring \<Rightarrow> jsnum \<Rightarrow> jsstring"

text \<open>
  \<open>write_fails\<close>: \<open>writeFileSync\<close> throws on this path. \<open>elapsed\<close>: the milliseconds the
  osascript process needs. \<open>crash\<close>: the process exits non-zero for a reason of its own (the
  application is not running, the group path does not resolve). \<open>message\<close>: the
  \<open>err.message\<close> that Node builds for a failure. \<open>num_str\<close>: \<open>${x}\<close> for a number that
  need not be a non-negative integer.
\<close>

record invocation =
  inv_dialect :: dialect
  inv_path :: jsstring
  inv_body :: "script option"
  inv_timeout :: nat

record sys =
  files :: "jsstring \<Rightarrow> script option"
  now :: nat
  log :: "invocation list"

fun run_script :: "world \<Rightarrow> dialect \<Rightarrow> script \<Rightarrow> failure + printed" where
  "run_script w JavaScript (SearchScript query dbFilter limit excerptLen) =
     Inr (SearchOut (search_script (search w query) dbFilter limit excerptLen))"
| "run_script w JavaScript (ChunkScript u offs chunkSize) =
     (case getRecordWithUuid w u of
        None \<Rightarrow> Inl (NotFound u)
      | Some r \<Rightarrow> Inr (PageOut (chunked_read r offs chunkSize)))"
| "run_script w JavaScript (BatchScript uuids maxChars) =
     Inr (BatchOut (batch_loop (getRecordWithUuid w) maxChars uuids []))"
| "run_script w AppleScript (ChildrenScript group_path db maxDocs) =
     Inr (TextOut (navigate w group_path db maxDocs))"
| "run_script w d b = Inl ProcessFailure"


section \<open>Script runners (server.js, lines 24-48)\<close>

definition join :: "jsstring \<Rightarrow> jsstring \<Rightarrow> jsstring" where
  "join dir file = dir @ [47] @ file"

definition writeFileSync :: "world \<Rightarrow> jsstring \<Rightarrow> script \<Rightarrow> sys \<Rightarrow> failure option \<times> sys" where
  "writeFileSync w path body s =
     (if write_fails w path then (Some WriteFailure, s)
      else (None, s\<lparr>files := (files s)(path := Some body)\<rparr>))"

definition unlinkSync :: "jsstring \<Rightarrow> sys \<Rightarrow> failure option \<times> sys" where
  \<comment> \<open>throws for a path that does not exist, and removes a file that does\<close>
  "unlinkSync path s =
     (case files s path of
        None \<Rightarrow> (Some NoEntry, s)
      | Some b \<Rightarrow> (None, s\<lparr>files := (files s)(path := None)\<rparr>))"

definition execFileSync ::
  "world \<Rightarrow> dialect \<Rightarrow> jsstring \<Rightarrow> nat \<Rightarrow> sys \<Rightarrow> (failure + printed) \<times> sys" where
  \<comment> \<open>osascript on the file at \<open>path\<close>, killed after \<open>timeoutMs\<close>\<close>
  "execFileSync w d path timeoutMs s =
     (let body = files s path;
          ran = (case body of None \<Rightarrow> 0 | Some b \<Rightarrow> min (elapsed w d b) timeoutMs);
          s' = s\<lparr>now := now s + ran,
                 log := log s @ [\<lparr>inv_dialect = d, inv_path = path, inv_body = body,
                                  inv_timeout = timeoutMs\<rparr>]\<rparr>
      in (case body of
            None \<Rightarrow> (Inl ProcessFailure, s')
          | Some b \<Rightarrow>
              if timeoutMs < elapsed w d b then (Inl TimeoutFailure, s')
              else if crash w d b then (Inl ProcessFailure, s')
              else (run_script w d b, s')))"

fun trimmed :: "printed \<Rightarrow> printed" where
  \<comment> \<open>\<open>.trim()\<close> on what the process printed; serialized JSON begins and ends with a brace\<close>
  "trimmed (TextOut t) = TextOut (trim t)"
| "trimmed out = out"

definition run_file ::
  "world \<Rightarrow> dialect \<Rightarrow> jsstring \<Rightarrow> script \<Rightarrow> nat \<Rightarrow> sys \<Rightarrow> (failure + printed) \<times> sys" where
  \<comment> \<open>\<open>try { writeFileSync; return execFileSync(...).trim() } finally { try { unlinkSync } catch {} }\<close>\<close>
  "run_file w d tmp body timeoutMs s =
     (case writeFileSync w tmp body s of
        (Some f, s1) \<Rightarrow> (Inl f, snd (unlinkSync tmp s1))
      | (None, s1) \<Rightarrow>
          (case execFileSync w d tmp timeoutMs s1 of
             (Inl f, s2) \<Rightarrow> (Inl f, snd (unlinkSync tmp s2))
           | (Inr out, s2) \<Rightarrow> (Inr (trimmed out), snd (unlinkSync tmp s2))))"

definition jxa_tmp :: "world \<Rightarrow> nat \<Rightarrow> jsstring" where
  "jxa_tmp w t = join (tmpdir w) (lit ''dt-jxa-'' @ show_nat t @ lit ''.js'')"

definition as_tmp :: "world \<Rightarrow> nat \<Rightarrow> jsstring" where
  "as_tmp w t = join (tmpdir w) (lit ''dt-as-'' @ show_nat t @ lit ''.applescript'')"

definition runJXA :: "world \<Rightarrow> script \<Rightarrow> nat \<Rightarrow> sys \<Rightarrow> (failure + printed) \<times> sys" where
  "runJXA w body timeoutMs s = run_file w JavaScript (jxa_tmp w (now s)) body timeoutMs s"

definition runAppleScript :: "world \<Rightarrow> script \<Rightarrow> nat \<Rightarrow> sys \<Rightarrow> (failure + printed) \<times> sys" where
  "runAppleScript w body timeoutMs s = run_file w AppleScript (as_tmp w (now s)) body timeoutMs s"


section \<open>Tool arguments and results\<close>

text \<open>
  The argument bag of a tool call: every property may be absent; strings and numbers are
  typed as the tools' input schemas declare them.
\<close>

record arg_bag =
  arg_query :: "jsstring option"
  arg_database :: "jsstring option"
  arg_limit :: "jsnum option"
  arg_excerpt_chars :: "jsnum option"
  arg_uuid :: "jsstring option"
  arg_offset :: "jsnum option"
  arg_group_path :: "jsstring option"
  arg_max_chars_per_doc :: "jsnum option"
  arg_max_docs :: "jsnum option"

record tool_result =
  content_blocks :: "jsstring list"
  isError :: bool

definition text_result :: "jsstring \<Rightarrow> tool_result" where
  \<comment> \<open>\<open>{ content: [{ type: 'text', text }] }\<close>\<close>
  "text_result t = \<lparr>content_blocks = [t], isError = False\<rparr>"

definition error_result :: "jsstring \<Rightarrow> tool_result" where
  \<comment> \<open>\<open>{ content: [{ type: 'text', text }], isError: true }\<close>\<close>
  "error_result t = \<lparr>content_blocks = [t], isError = True\<rparr>"


section \<open>dt_search_with_excerpts (server.js, lines 162-217)\<close>

definition search_safeLimit :: "arg_bag \<Rightarrow> jsnum" where
  "search_safeLimit a = min (num_or (arg_limit a) 10) 50"

definition dbFilter_of :: "jsstring option \<Rightarrow> jsstring option" where
  \<comment> \<open>\<open>database || null\<close>\<close>
  "dbFilter_of db = (case db of None \<Rightarrow> None | Some d \<Rightarrow> if d = [] then None else Some d)"

definition search_builder :: "arg_bag \<Rightarrow> script" where
  "search_builder a =
     SearchScript (String_of (arg_query a)) (dbFilter_of (arg_database a))
       (search_safeLimit a) (num_or (arg_excerpt_chars a) 600)"

definition render_result :: "world \<Rightarrow> search_result \<Rightarrow> jsstring" where
  "render_result w r =
     lit ''### '' @ name r @ [10]
     @ lit ''- **UUID**: `'' @ uuid r @ lit ''`'' @ [10]
     @ lit ''- **Location**: '' @ database r @ [32, 8594, 32] @ location r @ [10]
     @ lit ''- **Type**: '' @ kind r @ lit '' | **Score**: '' @ num_str w (score r) @ [10]
     @ (if excerpt r \<noteq> [] then [10] @ excerpt r @ [10] else [])
     @ [10] @ lit ''---'' @ [10, 10]"

definition render_search :: "world \<Rightarrow> search_data \<Rightarrow> jsstring" where
  "render_search w d =
     lit ''Found **'' @ show_nat (total d) @ lit ''** results (showing ''
     @ show_nat (returned d) @ lit ''):'' @ [10, 10]
     @ concat (map (render_result w) (results d))"

definition fetch_search :: "world \<Rightarrow> arg_bag \<Rightarrow> sys \<Rightarrow> (failure + search_data) \<times> sys" where
  \<comment> \<open>\<open>const data = JSON.parse(runJXA(script))\<close>\<close>
  "fetch_search w a s =
     (case runJXA w (search_builder a) 30000 s of
        (Inl f, s') \<Rightarrow> (Inl f, s')
      | (Inr (SearchOut d), s') \<Rightarrow> (Inr d, s')
      | (Inr other, s') \<Rightarrow> (Inl TypeError, s'))"

definition searchWithExcerpts :: "world \<Rightarrow> arg_bag \<Rightarrow> sys \<Rightarrow> (failure + tool_result) \<times> sys" where
  "searchWithExcerpts w a s =
     (case fetch_search w a s of
        (Inl f, s') \<Rightarrow> (Inl f, s')
      | (Inr d, s') \<Rightarrow> (Inr (text_result (render_search w d)), s'))"


section \<open>dt_get_content_chunked (server.js, lines 220-262)\<close>

definition chunk_builder :: "arg_bag \<Rightarrow> script" where
  "chunk_builder a =
     ChunkScript (String_of (arg_uuid a)) (num_or (arg_offset a) 0) (num_or (arg_limit a) 4000)"

definition render_page :: "world \<Rightarrow> content_page \<Rightarrow> jsstring" where
  "render_page w d =
     (let range = lit ''chars '' @ num_str w (offset d) @ [8211]
                  @ num_str w (offset d + of_nat (chunk_length d))
                  @ lit '' of '' @ show_nat (total_chars d);
          more = (if has_more d
                  then lit '' | '' @ [9654] @ lit '' more available '' @ [8212]
                       @ lit '' use offset: '' @ num_str w (next_offset d)
                  else lit '' | '' @ [10003] @ lit '' end of document'');
          header = lit ''**'' @ page_name d @ lit ''** ['' @ page_kind d @ lit ''] (''
                   @ range @ more @ lit '')'' @ [10, 10]
      in header @ content d)"

definition fetch_page :: "world \<Rightarrow> arg_bag \<Rightarrow> sys \<Rightarrow> (failure + content_page) \<times> sys" where
  \<comment> \<open>\<open>const d = JSON.parse(runJXA(script))\<close>\<close>
  "fetch_page w a s =
     (case runJXA w (chunk_builder a) 30000 s of
        (Inl f, s') \<Rightarrow> (Inl f, s')
      | (Inr (PageOut d), s') \<Rightarrow> (Inr d, s')
      | (Inr other, s') \<Rightarrow> (Inl TypeError, s'))"

definition getContentChunked :: "world \<Rightarrow> arg_bag \<Rightarrow> sys \<Rightarrow> (failure + tool_result) \<times> sys" where
  "getContentChunked w a s =
     (case fetch_page w a s of
        (Inl f, s') \<Rightarrow> (Inl f, s')
      | (Inr d, s') \<Rightarrow> (Inr (text_result (render_page w d)), s'))"


section \<open>dt_get_group_context (server.js, lines 265-341)\<close>

record group_child =
  item_uuid :: "jsstring option"
  item_name :: "jsstring option"
  item_kind :: "jsstring option"

definition nth_field :: "'a list \<Rightarrow> nat \<Rightarrow> 'a option" where
  \<comment> \<open>array destructuring: the element at a position, or undefined\<close>
  "nth_field xs n = (if n < length xs then Some (xs ! n) else None)"

definition parse_line :: "jsstring \<Rightarrow> group_child" where
  "parse_line line =
     (let parts = split line (lit ''|||'')
      in \<lparr>item_uuid = map_option trim (nth_field parts 0),
          item_name = map_option trim (nth_field parts 1),
          item_kind = map_option trim (nth_field parts 2)\<rparr>)"

definition truthy :: "jsstring option \<Rightarrow> bool" where
  "truthy x = (case x of None \<Rightarrow> False | Some t \<Rightarrow> t \<noteq> [])"

definition parse_children :: "jsstring \<Rightarrow> group_child list" where
  \<comment> \<open>lines 297-304; 13 is the carriage return\<close>
  "parse_children asResult =
     filter (\<lambda>i. truthy (item_uuid i) \<and> truthy (item_name i))
       (map parse_line (filter (\<lambda>l. l \<noteq> []) (split asResult [13])))"

definition group_safeMaxDocs :: "arg_bag \<Rightarrow> jsnum" where
  "group_safeMaxDocs a = min (num_or (arg_max_docs a) 20) 50"

definition children_builder :: "arg_bag \<Rightarrow> script" where
  "children_builder a =
     ChildrenScript (String_of (arg_group_path a)) (String_of (arg_database a))
       (group_safeMaxDocs a)"

definition batch_builder :: "arg_bag \<Rightarrow> group_child list \<Rightarrow> script" where
  \<comment> \<open>\<open>items.map(i => i.uuid)\<close>: every item the filter kept has a uuid\<close>
  "batch_builder a items =
     BatchScript (List.map_filter item_uuid items) (num_or (arg_max_chars_per_doc a) 800)"

definition render_item :: "(jsstring \<times> jsstring) list \<Rightarrow> group_child \<Rightarrow> jsstring" where
  "render_item contentMap item =
     (let c = (case item_uuid item of
                 None \<Rightarrow> []
               | Some u \<Rightarrow> (case map_of contentMap u of None \<Rightarrow> [] | Some t \<Rightarrow> t))
      in lit ''### '' @ String_of (item_name item) @ lit '' ['' @ String_of (item_kind item)
         @ lit '']'' @ [10]
         @ lit ''UUID: `'' @ String_of (item_uuid item) @ lit ''`'' @ [10]
         @ (if c \<noteq> [] then [10] @ c @ [10] else [])
         @ [10] @ lit ''---'' @ [10, 10])"

definition render_group ::
  "arg_bag \<Rightarrow> group_child list \<Rightarrow> (jsstring \<times> jsstring) list \<Rightarrow> jsstring" where
  "render_group a items contentMap =
     lit ''**Group**: `'' @ String_of (arg_group_path a) @ lit ''` in **''
     @ String_of (arg_database a) @ lit ''** '' @ [8212, 32] @ show_nat (length items)
     @ lit '' documents'' @ [10, 10]
     @ concat (map (render_item contentMap) items)"

definition empty_or_not_found :: "arg_bag \<Rightarrow> jsstring" where
  \<comment> \<open>line 293; 34 is the double quote\<close>
  "empty_or_not_found a =
     lit ''Group '' @ [34] @ String_of (arg_group_path a) @ [34] @ lit '' in '' @ [34]
     @ String_of (arg_database a) @ [34] @ lit '' is empty or not found.''"

definition no_documents_found :: "arg_bag \<Rightarrow> jsstring" where
  \<comment> \<open>line 307\<close>
  "no_documents_found a =
     lit ''No documents found in '' @ [34] @ String_of (arg_group_path a) @ [34] @ lit ''.''"

definition getGroupContext :: "world \<Rightarrow> arg_bag \<Rightarrow> sys \<Rightarrow> (failure + tool_result) \<times> sys" where
  "getGroupContext w a s =
     (case runAppleScript w (children_builder a) 30000 s of
        (Inl f, s1) \<Rightarrow> (Inl f, s1)
      | (Inr (TextOut asResult), s1) \<Rightarrow>
          if asResult = [] then (Inr (text_result (empty_or_not_found a)), s1)
          else (let items = parse_children asResult
                in if length items = 0 then (Inr (text_result (no_documents_found a)), s1)
                   else (case runJXA w (batch_builder a items) 60000 s1 of
                           (Inl f, s2) \<Rightarrow> (Inl f, s2)
                         | (Inr (BatchOut contentMap), s2) \<Rightarrow>
                             (Inr (text_result (render_group a items contentMap)), s2)
                         | (Inr other, s2) \<Rightarrow> (Inl TypeError, s2)))
      | (Inr other, s1) \<Rightarrow> (Inl TypeError, s1))"


section \<open>The request handler (server.js, lines 149-159)\<close>

definition catch :: "world \<Rightarrow> (failure + tool_result) \<times> sys \<Rightarrow> tool_result \<times> sys" where
  \<comment> \<open>\<open>try { return handler(args) } catch (err) { return { ..., isError: true } }\<close>\<close>
  "catch w r =
     (case r of
        (Inl err, s') \<Rightarrow> (error_result (lit ''Error: '' @ message w err), s')
      | (Inr res, s') \<Rightarrow> (res, s'))"

definition dispatch :: "world \<Rightarrow> jsstring \<Rightarrow> arg_bag \<Rightarrow> sys \<Rightarrow> tool_result \<times> sys" where
  "dispatch w tool a s =
     (if tool = lit ''dt_search_with_excerpts'' then catch w (searchWithExcerpts w a s)
      else if tool = lit ''dt_get_content_chunked'' then catch w (getContentChunked w a s)
      else if tool = lit ''dt_get_group_context'' then catch w (getGroupContext w a s)
      else (error_result (lit ''Unknown tool: '' @ tool), s))"


section \<open>Reading a document to its end\<close>



section \<open>Example data\<close>

definition doc_one :: dt_record where
  "doc_one = \<lparr>rec_name = lit ''Doc One'', rec_uuid = lit ''U1'', rec_location = lit ''/Inbox/'',
     rec_database = lit ''Active_Work'', rec_score = 91 / 100, rec_type = lit ''markdown'',
     plainText = Text (lit ''hello world'')\<rparr>"

definition doc_two :: dt_record where
  "doc_two = \<lparr>rec_name = lit ''Doc,Two'', rec_uuid = lit ''U2'', rec_location = lit ''/Scans/'',
     rec_database = lit ''Archive'', rec_score = 77 / 100, rec_type = lit ''PDF document'',
     plainText = Throws\<rparr>"

definition doc_three :: dt_record where
  "doc_three = \<lparr>rec_name = lit ''Notes'', rec_uuid = lit ''U3'', rec_location = lit ''/Inbox/'',
     rec_database = lit ''Active_Work'', rec_score = 1 / 2, rec_type = lit ''txt'',
     plainText = Absent\<rparr>"

definition demo_matches :: "dt_record list" where
  "demo_matches = [doc_one, doc_two, doc_three]"

fun demo_message :: "failure \<Rightarrow> jsstring" where
  \<comment> \<open>short stand-ins for the texts Node builds, which also name the command and its file\<close>
  "demo_message (NotFound u) = lit ''Record not found: '' @ u"
| "demo_message TimeoutFailure = lit ''spawnSync osascript ETIMEDOUT''"
| "demo_message f = lit ''Command failed''"

definition demo_raw :: jsstring where
  \<comment> \<open>the navigation output of the specification's parsing scenario\<close>
  "demo_raw = lit ''U1|||Doc One|||markdown'' @ [13] @ lit ''U2|||Doc,Two|||PDF document'' @ [13]"

definition padded_raw :: jsstring where
  \<comment> \<open>a record without a name, a record with padded fields (space, tab 9, no-break space
      160), a record with an empty identity, and a record with two fields\<close>
  "padded_raw = lit ''U9'' @ [13]
     @ [32] @ lit ''U2 |||'' @ [9] @ lit ''Doc,Two'' @ [160] @ lit ''|||  PDF document '' @ [13]
     @ lit '' |||nameless|||txt'' @ [13]
     @ lit ''U4||| a|b'' @ [13]"

definition demo_world :: world where
  \<comment> \<open>\<open>num_str\<close> is a stand-in that prints the integer part only\<close>
  "demo_world = \<lparr>tmpdir = lit ''/tmp'', write_fails = (\<lambda>p. False), elapsed = (\<lambda>d b. 120),
     crash = (\<lambda>d b. False), message = demo_message,
     num_str = (\<lambda>x. show_nat (nat \<lfloor>x\<rfloor>)),
     search = (\<lambda>q. demo_matches),
     getRecordWithUuid = (\<lambda>u. if u = lit ''U1'' then Some doc_one
                               else if u = lit ''U2'' then Some doc_two
                               else if u = lit ''U3'' then Some doc_three else None),
     navigate = (\<lambda>p db m. demo_raw)\<rparr>"

definition demo_sys :: sys where
  "demo_sys = \<lparr>files = (\<lambda>p. None), now = 1730000000123, log = []\<rparr>"

definition no_args :: arg_bag where
  "no_args = \<lparr>arg_query = None, arg_database = None, arg_limit = None, arg_excerpt_chars = None,
     arg_uuid = None, arg_offset = None, arg_group_path = None, arg_max_chars_per_doc = None,
     arg_max_docs = None\<rparr>"

definition page_args :: "jsstring \<Rightarrow> jsnum \<Rightarrow> jsnum \<Rightarrow> arg_bag" where
  "page_args u offs chunkSize =
     no_args\<lparr>arg_uuid := Some u, arg_offset := Some offs, arg_limit := Some chunkSize\<rparr>"

definition search_args :: "jsstring option \<Rightarrow> jsnum option \<Rightarrow> arg_bag" where
  "search_args db n = no_args\<lparr>arg_query := Some (lit ''ONVIF''), arg_database := db, arg_limit := n\<rparr>"


definition slow_world :: world where
  "slow_world = demo_world\<lparr>elapsed := (\<lambda>d b. 45000)\<rparr>"

definition crash_world :: world where
  "crash_world = demo_world\<lparr>crash := (\<lambda>d b. True)\<rparr>"

definition empty_group_world :: world where
  "empty_group_world = demo_world\<lparr>navigate := (\<lambda>p db m. [])\<rparr>"

definition blank_name_world :: world where
  \<comment> \<open>a group whose only child has an empty name\<close>
  "blank_name_world = demo_world\<lparr>navigate := (\<lambda>p db m. lit ''U1||||||markdown'' @ [13])\<rparr>"

definition group_args :: arg_bag where
  "group_args = no_args\<lparr>arg_group_path := Some (lit ''/Projects''),
     arg_database := Some (lit ''Active_Work'')\<rparr>"


section \<open>Numbers and substrings\<close>

lemma ToIntegerOrInfinity_nonneg: "0 \<le> x \<Longrightarrow> ToIntegerOrInfinity x = \<lfloor>x\<rfloor>"
  by (simp add: ToIntegerOrInfinity_def)

lemma take_beyond: "length xs \<le> n \<Longrightarrow> length xs \<le> m \<Longrightarrow> take n xs = take m xs"
  by simp

lemma substring_from_index:
  assumes "0 \<le> i" "i \<le> int (length s)" "0 \<le> l"
  shows "substring s (of_int i) (of_int i + l) = take (nat \<lfloor>l\<rfloor>) (drop (nat i) s)"
proof -
  have fl: "0 \<le> \<lfloor>l\<rfloor>" using assms(3) by simp
  have a: "ToIntegerOrInfinity (of_int i) = i"
    using assms(1) by (simp add: ToIntegerOrInfinity_nonneg)
  have b: "ToIntegerOrInfinity (of_int i + l) = i + \<lfloor>l\<rfloor>"
    using assms(1,3) by (simp add: ToIntegerOrInfinity_nonneg)
  define e where "e = min (i + \<lfloor>l\<rfloor>) (int (length s))"
  have e: "i \<le> e" "e \<le> int (length s)"
    using assms(2) fl by (simp_all add: e_def)
  have c: "min (max i 0) (int (length s)) = i" "min (max (i + \<lfloor>l\<rfloor>) 0) (int (length s)) = e"
    using assms(1,2) fl by (simp_all add: e_def)
  have "substring s (of_int i) (of_int i + l) = take (nat (max i e - min i e)) (drop (nat (min i e)) s)"
    by (simp add: substring_def Let_def a b c)
  also have "\<dots> = take (nat (e - i)) (drop (nat i) s)"
    using e(1) by simp
  also have "\<dots> = take (nat \<lfloor>l\<rfloor>) (drop (nat i) s)"
  proof (cases "i + \<lfloor>l\<rfloor> \<le> int (length s)")
    case True
    then have "e - i = \<lfloor>l\<rfloor>" by (simp add: e_def)
    then show ?thesis by simp
  next
    case False
    then have "e = int (length s)" by (simp add: e_def)
    with False assms(1,2) have "length (drop (nat i) s) \<le> nat (e - i)"
      and "length (drop (nat i) s) \<le> nat \<lfloor>l\<rfloor>"
      by (simp_all only: length_drop)
    then show ?thesis by (rule take_beyond)
  qed
  finally show ?thesis .
qed

lemma num_or_Some: "x \<noteq> 0 \<Longrightarrow> num_or (Some x) d = x"
  by (simp add: num_or_def)

lemma num_or_offset: "num_or (Some x) 0 = x"
  by (simp add: num_or_def)

section \<open>The script runners\<close>

lemma run_file_Inr:
  assumes "run_file w d tmp body t s = (Inr out, s')"
  shows "\<exists>p. run_script w d body = Inr p \<and> out = trimmed p"
  using assms
  by (auto simp: run_file_def writeFileSync_def execFileSync_def Let_def
           split: if_splits prod.splits sum.splits option.splits)

lemma fetch_page_Inr:
  assumes "fst (fetch_page w a s) = Inr d"
  shows "run_script w JavaScript (chunk_builder a) = Inr (PageOut d)"
proof -
  from assms obtain out s' where r: "runJXA w (chunk_builder a) 30000 s = (Inr out, s')"
    and o: "out = PageOut d"
    by (auto simp: fetch_page_def split: prod.splits sum.splits printed.splits)
  from r obtain p where "run_script w JavaScript (chunk_builder a) = Inr p" "out = trimmed p"
    unfolding runJXA_def by (blast dest: run_file_Inr)
  with o show ?thesis by (cases p) simp_all
qed

section \<open>C1: the fields of a content page\<close>

text \<open>
  Claim C1, for integer offsets and limits. When \<open>get_content_chunked\<close> is called with an
  integer offset between 0 and the length of the record's extracted text and an integer limit
  above 0, the page it reads has \<open>chunk_length = min(limit, total_chars - offset)\<close>,
  \<open>next_offset = offset + chunk_length\<close>, \<open>has_more = (next_offset < total_chars)\<close>, its
  content is the \<open>chunk_length\<close> code units of the extracted text from \<open>offset\<close> on, and
  \<open>total_chars\<close> is the length of the extracted text.
\<close>

theorem content_page_fields:
  assumes run: "fst (fetch_page w a s) = Inr d"
    and rec: "getRecordWithUuid w (String_of (arg_uuid a)) = Some r"
    and args: "arg_offset a = Some (of_int i)" "arg_limit a = Some (of_int l)"
    and range: "0 \<le> i" "i \<le> int (length (extracted r))" "0 < l"
  shows "int (chunk_length d) = min l (int (total_chars d) - i)
       \<and> next_offset d = of_int i + of_nat (chunk_length d)
       \<and> has_more d = (next_offset d < of_nat (total_chars d))
       \<and> content d = take (chunk_length d) (drop (nat i) (extracted r))
       \<and> total_chars d = length (extracted r)"
proof -
  have b: "chunk_builder a = ChunkScript (String_of (arg_uuid a)) (of_int i) (of_int l)"
    using args range by (simp add: chunk_builder_def num_or_offset num_or_Some)
  have d: "d = chunked_read r (of_int i) (of_int l)"
    using fetch_page_Inr [OF run] rec by (simp add: b)
  have sub: "substring (extracted r) (of_int i) (of_int i + of_int l)
             = take (nat l) (drop (nat i) (extracted r))"
    using substring_from_index [of i "extracted r" "of_int l"] range by simp
  have len: "int (length (take (nat l) (drop (nat i) (extracted r))))
             = min l (int (length (extracted r)) - i)"
    using range by (simp add: min_def) linarith
  show ?thesis
    using len range by (simp add: d chunked_read_def Let_def sub min_def)
qed

theorem content_page_fields_witness:
  "fst (fetch_page demo_world (page_args (lit ''U1'') 2 5) demo_sys)
     = Inr (chunked_read doc_one 2 5)
   \<and> content (chunked_read doc_one 2 5) = lit ''llo w''
   \<and> chunk_length (chunked_read doc_one 2 5) = 5
   \<and> next_offset (chunked_read doc_one 2 5) = 7
   \<and> has_more (chunked_read doc_one 2 5)
   \<and> total_chars (chunked_read doc_one 2 5) = 11"
proof -
  have run: "fst (fetch_page demo_world (page_args (lit ''U1'') 2 5) demo_sys)
             = Inr (chunked_read doc_one 2 5)"
    by code_simp
  have rec: "getRecordWithUuid demo_world (String_of (arg_uuid (page_args (lit ''U1'') 2 5)))
             = Some doc_one"
    by code_simp
  have a1: "arg_offset (page_args (lit ''U1'') 2 5) = Some (of_int 2)"
    and a2: "arg_limit (page_args (lit ''U1'') 2 5) = Some (of_int 5)"
    by (simp_all add: page_args_def no_args_def)
  have len: "length (extracted doc_one) = 11"
    by (simp add: extracted_def doc_one_def lit_def)
  have chunk: "take 5 (drop 2 (extracted doc_one)) = lit ''llo w''"
    by (simp add: extracted_def doc_one_def lit_def)
  have range: "(0::int) \<le> 2" "2 \<le> int (length (extracted doc_one))" "(0::int) < 5"
    by (simp_all add: len)
  note page = content_page_fields [OF run rec a1 a2 range]
  have total: "total_chars (chunked_read doc_one 2 5) = 11"
    using page len by simp
  have clen: "chunk_length (chunked_read doc_one 2 5) = 5"
    using page total by simp
  have "next_offset (chunked_read doc_one 2 5) = 7"
    using page clen by simp
  moreover have "has_more (chunked_read doc_one 2 5)"
    using page clen total by simp
  moreover have "content (chunked_read doc_one 2 5) = lit ''llo w''"
    using page clen chunk by simp
  ultimately show ?thesis
    using run total clen by simp
qed

text \<open>
  For a limit that is a number but not an integer the first equation fails:
  \<open>substring\<close> truncates its end index, so offset 0 and limit 2.5 on an eleven-unit text
  give a chunk of 2 code units, not \<open>min(2.5, 11)\<close>.
\<close>

theorem fractional_limit_counterexample:
  "fst (fetch_page demo_world (page_args (lit ''U1'') 0 (5 / 2)) demo_sys)
     = Inr (chunked_read doc_one 0 (5 / 2))
   \<and> (0 :: rat) \<le> of_nat (length (extracted doc_one))
   \<and> (0 :: rat) < 5 / 2
   \<and> chunk_length (chunked_read doc_one 0 (5 / 2)) = 2
   \<and> total_chars (chunked_read doc_one 0 (5 / 2)) = 11
   \<and> of_nat (chunk_length (chunked_read doc_one 0 (5 / 2)))
       \<noteq> min (5 / 2 :: rat) (of_nat (total_chars (chunked_read doc_one 0 (5 / 2))) - 0)"
  by code_simp


section \<open>Invocations that meet no fault\<close>

lemma run_file_healthy:
  assumes "\<not> write_fails w tmp" "\<not> crash w d body" "elapsed w d body \<le> t"
  shows "fst (run_file w d tmp body t s) = map_sum id trimmed (run_script w d body)"
  using assms
  by (cases "run_script w d body")
     (simp_all add: run_file_def writeFileSync_def execFileSync_def Let_def)


section \<open>C2: walking a document by next-offset chaining\<close>













section \<open>C3: the navigation-output normalizer\<close>

lemma is_prefix_append: "is_prefix xs ys \<Longrightarrow> xs @ drop (length xs) ys = ys"
  by (induction xs ys rule: is_prefix.induct) auto

lemma split_from_not_Nil: "split_from sep acc s \<noteq> []"
  by (induction sep acc s rule: split_from.induct) auto

lemma join_with_Cons: "ps \<noteq> [] \<Longrightarrow> join_with sep (p # ps) = p @ sep @ join_with sep ps"
  by (cases ps) auto

lemma join_split_from: "sep \<noteq> [] \<Longrightarrow> join_with sep (split_from sep acc s) = acc @ s"
proof (induction sep acc s rule: split_from.induct)
  case (1 sep acc)
  show ?case by simp
next
  case (2 sep acc c cs)
  show ?case
  proof (cases "is_prefix sep (c # cs)")
    case True
    have "sep @ drop (length sep - 1) cs = c # cs"
      using is_prefix_append [OF True] "2.prems" by (cases sep) auto
    with True 2 show ?thesis
      by (simp add: join_with_Cons split_from_not_Nil)
  next
    case False
    with 2 show ?thesis by simp
  qed
qed

lemma join_split: "sep \<noteq> [] \<Longrightarrow> join_with sep (split s sep) = s"
  by (simp add: split_def join_split_from)

lemma split_from_single_pieces:
  "c \<notin> set acc \<Longrightarrow> \<forall>l \<in> set (split_from [c] acc s). c \<notin> set l"
proof (induction s arbitrary: acc)
  case Nil
  then show ?case by simp
next
  case (Cons y ys)
  show ?case
  proof (cases "c = y")
    case True
    with Cons.prems Cons.IH [of "[]"] show ?thesis by simp
  next
    case False
    with Cons.prems Cons.IH [of "acc @ [y]"] show ?thesis by simp
  qed
qed

lemma split_from_trailing: "split_from [c] acc (s @ [c]) = split_from [c] acc s @ [[]]"
  by (induction s arbitrary: acc) auto

lemma parse_children_trailing: "parse_children (x @ [13]) = parse_children x"
  by (simp add: parse_children_def split_def split_from_trailing)

lemma trim_ends:
  assumes "trim t \<noteq> []"
  shows "\<not> is_space (hd (trim t)) \<and> \<not> is_space (last (trim t))"
proof -
  define a where "a = dropWhile is_space t"
  define b where "b = dropWhile is_space (rev a)"
  have t: "trim t = rev b" by (simp add: trim_def a_def b_def)
  with assms have b: "b \<noteq> []" by simp
  then have hb: "\<not> is_space (hd b)" unfolding b_def by (rule hd_dropWhile)
  from b have a: "a \<noteq> []" by (auto simp: b_def)
  then have ha: "\<not> is_space (hd a)" unfolding a_def by (rule hd_dropWhile)
  have "rev a = takeWhile is_space (rev a) @ b" by (simp add: b_def)
  then have "last (rev a) = last b" using b by (metis last_appendR)
  then have "last b = hd a" using a by (simp add: last_rev)
  with ha hb b show ?thesis by (simp add: t hd_rev last_rev)
qed

lemma trimmed_field:
  "map_option trim f = Some u \<Longrightarrow> u \<noteq> [] \<Longrightarrow> \<not> is_space (hd u) \<and> \<not> is_space (last u)"
  using trim_ends by (cases f) auto

lemma is_prefix_iff: "is_prefix xs ys \<longleftrightarrow> (\<exists>v. ys = xs @ v)"
  by (induction xs ys rule: is_prefix.induct) auto

lemma split_from_pieces:
  assumes "sep \<noteq> []" and "\<forall>u v. acc @ s = u @ sep @ v \<longrightarrow> length acc \<le> length u"
  shows "\<forall>p \<in> set (split_from sep acc s). \<not> (\<exists>u v. p = u @ sep @ v)"
  using assms
proof (induction sep acc s rule: split_from.induct)
  case (1 sep acc)
  have "\<not> (\<exists>u v. acc = u @ sep @ v)"
  proof
    assume "\<exists>u v. acc = u @ sep @ v"
    then obtain u v where uv: "acc = u @ sep @ v" by blast
    with "1.prems"(2) have "length acc \<le> length u" by simp
    with uv "1.prems"(1) show False by simp
  qed
  then show ?case by simp
next
  case (2 sep acc c cs)
  have here: "\<not> (\<exists>u v. acc = u @ sep @ v)"
  proof
    assume "\<exists>u v. acc = u @ sep @ v"
    then obtain u v where uv: "acc = u @ sep @ v" by blast
    then have "acc @ c # cs = u @ sep @ (v @ c # cs)" by simp
    with "2.prems"(2) have "length acc \<le> length u" by blast
    with uv "2.prems"(1) show False by simp
  qed
  show ?case
  proof (cases "sep \<noteq> [] \<and> is_prefix sep (c # cs)")
    case True
    have "\<forall>p \<in> set (split_from sep [] (drop (length sep - 1) cs)). \<not> (\<exists>u v. p = u @ sep @ v)"
      using True "2.prems"(1) by (intro "2.IH"(1)) simp_all
    with True here show ?thesis by simp
  next
    case False
    with "2.prems"(1) have nomatch: "\<not> is_prefix sep (c # cs)" by simp
    have "\<forall>u v. (acc @ [c]) @ cs = u @ sep @ v \<longrightarrow> length (acc @ [c]) \<le> length u"
    proof (intro allI impI)
      fix u v assume e: "(acc @ [c]) @ cs = u @ sep @ v"
      then have e': "acc @ c # cs = u @ sep @ v" by simp
      with "2.prems"(2) have le: "length acc \<le> length u" by blast
      have "length u \<noteq> length acc"
      proof
        assume "length u = length acc"
        with e' have "c # cs = sep @ v" by simp
        with nomatch show False by (simp add: is_prefix_iff)
      qed
      with le show "length (acc @ [c]) \<le> length u" by simp
    qed
    from "2.IH"(2) [OF False "2.prems"(1) this] nomatch show ?thesis by simp
  qed
qed

lemma split_pieces:
  "sep \<noteq> [] \<Longrightarrow> \<forall>p \<in> set (split s sep). \<not> (\<exists>u v. p = u @ sep @ v)"
  using split_from_pieces [of sep "[]" s] by (simp add: split_def)

lemma trim_padding:
  "\<exists>pre suf. t = pre @ trim t @ suf \<and> (\<forall>c \<in> set pre. is_space c) \<and> (\<forall>c \<in> set suf. is_space c)"
proof -
  define a where "a = dropWhile is_space t"
  define b where "b = dropWhile is_space (rev a)"
  have t: "t = takeWhile is_space t @ a" by (simp add: a_def)
  have "rev a = takeWhile is_space (rev a) @ b" by (simp add: b_def)
  then have "rev (rev a) = rev (takeWhile is_space (rev a) @ b)" by (rule arg_cong)
  then have a: "a = rev b @ rev (takeWhile is_space (rev a))" by simp
  have tr: "trim t = rev b" by (simp add: trim_def a_def b_def)
  have "t = takeWhile is_space t @ trim t @ rev (takeWhile is_space (rev a))"
    using t a by (simp add: tr)
  moreover have "\<forall>c \<in> set (takeWhile is_space t). is_space c"
    by (auto dest: set_takeWhileD)
  moreover have "\<forall>c \<in> set (rev (takeWhile is_space (rev a))). is_space c"
    by (auto dest: set_takeWhileD)
  ultimately show ?thesis by blast
qed

lemma is_space_code_units:
  "Collect is_space
   = {9, 10, 11, 12, 13, 32, 160, 5760, 8232, 8233, 8239, 8287, 12288, 65279} \<union> {8192..8202}"
  by (auto simp: is_space_def)

lemma split_token_not_Nil: "split l (lit ''|||'') \<noteq> []"
  by (simp add: split_def lit_def split_from_not_Nil)

lemma parse_line_fields:
  "item_uuid (parse_line l) = Some (trim (hd (split l (lit ''|||''))))"
  "item_name (parse_line l)
     = (if 2 \<le> length (split l (lit ''|||'')) then Some (trim (split l (lit ''|||'') ! 1)) else None)"
  "item_kind (parse_line l)
     = (if 3 \<le> length (split l (lit ''|||'')) then Some (trim (split l (lit ''|||'') ! 2)) else None)"
  using split_token_not_Nil [of l]
  by (auto simp: parse_line_def Let_def nth_field_def hd_conv_nth)

text \<open>
  Claim C3. The normalizer of the navigation output cuts the raw output at carriage returns
  (code unit 13; a line feed does not end a record), cuts every record at the three-unit
  token \<open>|||\<close>, trims every field, drops the empty fragment a trailing terminator leaves, and
  drops every record whose identity or name is missing or empty after trimming. The
  raw output \<open>U1|||Doc One|||markdown\rU2|||Doc,Two|||PDF document\r\<close> parses to exactly two
  children, the comma of \<open>Doc,Two\<close> intact.

  The statement says what a cut is: the pieces, rejoined with the separator, are the input,
  and no piece contains the separator. It says what trimming is: the field is the piece
  less a prefix and a suffix of white space, beginning and ending with a code unit that is
  not white space, for the white-space code units of ECMAScript. All three fields of a
  record are the trimmed pieces at positions 0, 1 and 2.
\<close>

theorem navigation_normalizer:
  "parse_children demo_raw
     = [\<lparr>item_uuid = Some (lit ''U1''), item_name = Some (lit ''Doc One''),
          item_kind = Some (lit ''markdown'')\<rparr>,
        \<lparr>item_uuid = Some (lit ''U2''), item_name = Some (lit ''Doc,Two''),
          item_kind = Some (lit ''PDF document'')\<rparr>]
   \<and> parse_children (trim demo_raw) = parse_children demo_raw
   \<and> parse_children padded_raw
       = [\<lparr>item_uuid = Some (lit ''U2''), item_name = Some (lit ''Doc,Two''),
            item_kind = Some (lit ''PDF document'')\<rparr>,
          \<lparr>item_uuid = Some (lit ''U4''), item_name = Some (lit ''a|b''), item_kind = None\<rparr>]
   \<and> split (lit ''a||||b'') (lit ''|||'') = [lit ''a'', lit ''|b'']
   \<and> join_with [13] (split raw [13]) = raw
   \<and> (\<forall>p \<in> set (split raw [13]). 13 \<notin> set p)
   \<and> join_with (lit ''|||'') (split l (lit ''|||'')) = l
   \<and> (\<forall>p \<in> set (split l (lit ''|||'')). \<not> (\<exists>u v. p = u @ lit ''|||'' @ v))
   \<and> parse_children (raw @ [13]) = parse_children raw
   \<and> parse_children raw
       = filter (\<lambda>i. truthy (item_uuid i) \<and> truthy (item_name i))
           (map parse_line (filter (\<lambda>l. l \<noteq> []) (split raw [13])))
   \<and> item_uuid (parse_line l) = Some (trim (hd (split l (lit ''|||''))))
   \<and> item_name (parse_line l)
       = (if 2 \<le> length (split l (lit ''|||'')) then Some (trim (split l (lit ''|||'') ! 1))
          else None)
   \<and> item_kind (parse_line l)
       = (if 3 \<le> length (split l (lit ''|||'')) then Some (trim (split l (lit ''|||'') ! 2))
          else None)
   \<and> (\<exists>pre suf. t = pre @ trim t @ suf
         \<and> (\<forall>c \<in> set pre. is_space c) \<and> (\<forall>c \<in> set suf. is_space c))
   \<and> (trim t \<noteq> [] \<longrightarrow> \<not> is_space (hd (trim t)) \<and> \<not> is_space (last (trim t)))
   \<and> Collect is_space
       = {9, 10, 11, 12, 13, 32, 160, 5760, 8232, 8233, 8239, 8287, 12288, 65279}
         \<union> {8192..8202}
   \<and> (\<forall>i \<in> set (parse_children raw).
         (\<exists>u. item_uuid i = Some u \<and> u \<noteq> [] \<and> \<not> is_space (hd u) \<and> \<not> is_space (last u))
       \<and> (\<exists>n. item_name i = Some n \<and> n \<noteq> [] \<and> \<not> is_space (hd n) \<and> \<not> is_space (last n))
       \<and> (\<forall>k. item_kind i = Some k \<and> k \<noteq> []
             \<longrightarrow> \<not> is_space (hd k) \<and> \<not> is_space (last k)))"
proof -
  have ex: "parse_children demo_raw
     = [\<lparr>item_uuid = Some (lit ''U1''), item_name = Some (lit ''Doc One''),
          item_kind = Some (lit ''markdown'')\<rparr>,
        \<lparr>item_uuid = Some (lit ''U2''), item_name = Some (lit ''Doc,Two''),
          item_kind = Some (lit ''PDF document'')\<rparr>]"
    by code_simp
  have tr: "parse_children (trim demo_raw) = parse_children demo_raw"
    by code_simp
  have pad: "parse_children padded_raw
       = [\<lparr>item_uuid = Some (lit ''U2''), item_name = Some (lit ''Doc,Two''),
            item_kind = Some (lit ''PDF document'')\<rparr>,
          \<lparr>item_uuid = Some (lit ''U4''), item_name = Some (lit ''a|b''), item_kind = None\<rparr>]"
    by code_simp
  have greedy: "split (lit ''a||||b'') (lit ''|||'') = [lit ''a'', lit ''|b'']"
    by code_simp
  have sep: "lit ''|||'' \<noteq> []" by (simp add: lit_def)
  have cr: "\<forall>p \<in> set (split raw [13]). 13 \<notin> set p"
    using split_from_single_pieces [of 13 "[]" raw] by (simp add: split_def)
  have token: "\<forall>p \<in> set (split l (lit ''|||'')). \<not> (\<exists>u v. p = u @ lit ''|||'' @ v)"
    using sep by (rule split_pieces)
  have fields: "\<forall>i \<in> set (parse_children raw).
         (\<exists>u. item_uuid i = Some u \<and> u \<noteq> [] \<and> \<not> is_space (hd u) \<and> \<not> is_space (last u))
       \<and> (\<exists>n. item_name i = Some n \<and> n \<noteq> [] \<and> \<not> is_space (hd n) \<and> \<not> is_space (last n))
       \<and> (\<forall>k. item_kind i = Some k \<and> k \<noteq> []
             \<longrightarrow> \<not> is_space (hd k) \<and> \<not> is_space (last k))"
  proof
    fix i assume "i \<in> set (parse_children raw)"
    then obtain l where i: "i = parse_line l" and ok: "truthy (item_uuid i)" "truthy (item_name i)"
      by (auto simp: parse_children_def)
    from ok(1) obtain u where u: "item_uuid i = Some u" "u \<noteq> []"
      by (auto simp: truthy_def split: option.splits)
    from ok(2) obtain n where n: "item_name i = Some n" "n \<noteq> []"
      by (auto simp: truthy_def split: option.splits)
    have "\<not> is_space (hd u) \<and> \<not> is_space (last u)"
      using u i by (intro trimmed_field [of "nth_field (split l (lit ''|||'')) 0"])
        (simp_all add: parse_line_def Let_def)
    moreover have "\<not> is_space (hd n) \<and> \<not> is_space (last n)"
      using n i by (intro trimmed_field [of "nth_field (split l (lit ''|||'')) 1"])
        (simp_all add: parse_line_def Let_def)
    moreover have "\<not> is_space (hd k) \<and> \<not> is_space (last k)"
      if "item_kind i = Some k \<and> k \<noteq> []" for k
      using that i by (intro trimmed_field [of "nth_field (split l (lit ''|||'')) 2"])
        (simp_all add: parse_line_def Let_def)
    ultimately show "(\<exists>u. item_uuid i = Some u \<and> u \<noteq> [] \<and> \<not> is_space (hd u) \<and> \<not> is_space (last u))
       \<and> (\<exists>n. item_name i = Some n \<and> n \<noteq> [] \<and> \<not> is_space (hd n) \<and> \<not> is_space (last n))
       \<and> (\<forall>k. item_kind i = Some k \<and> k \<noteq> []
             \<longrightarrow> \<not> is_space (hd k) \<and> \<not> is_space (last k))"
      using u n by simp
  qed
  have def: "parse_children raw
       = filter (\<lambda>i. truthy (item_uuid i) \<and> truthy (item_name i))
           (map parse_line (filter (\<lambda>l. l \<noteq> []) (split raw [13])))"
    by (simp add: parse_children_def)
  note facts = ex tr pad greedy join_split [of "[13]" raw, simplified] cr
    join_split [OF sep, of l] token parse_children_trailing [of raw] def
    parse_line_fields [of l] trim_padding [of t] trim_ends [of t] is_space_code_units fields
  show ?thesis
    by (intro conjI impI facts) (use trim_ends [of t] in blast)+
qed

theorem navigation_normalizer_witness:
  "parse_children (demo_raw @ [13]) = parse_children demo_raw
   \<and> length (parse_children demo_raw) = 2
   \<and> item_name (parse_children demo_raw ! 1) = Some (lit ''Doc,Two'')
   \<and> join_with [13] (split demo_raw [13]) = demo_raw
   \<and> 13 \<notin> set (lit ''U2|||Doc,Two|||PDF document'')
   \<and> join_with (lit ''|||'') (split (lit ''U2|||Doc,Two|||PDF document'') (lit ''|||''))
       = lit ''U2|||Doc,Two|||PDF document''
   \<and> item_kind (parse_line ([32] @ lit ''U2 |||'' @ [9] @ lit ''Doc,Two'' @ [160] @ lit ''|||  PDF document ''))
       = Some (lit ''PDF document'')
   \<and> \<not> is_space (hd (lit ''PDF document'')) \<and> \<not> is_space (last (lit ''PDF document''))
   \<and> is_space 9 \<and> is_space 32 \<and> is_space 160 \<and> \<not> is_space 124"
proof -
  let ?line = "[32] @ lit ''U2 |||'' @ [9] @ lit ''Doc,Two'' @ [160] @ lit ''|||  PDF document ''"
  have m: "lit ''U2|||Doc,Two|||PDF document'' \<in> set (split demo_raw [13])"
    by code_simp
  note n = navigation_normalizer [of demo_raw "lit ''U2|||Doc,Two|||PDF document''"
      "lit ''  PDF document ''"]
  note n2 = navigation_normalizer [of padded_raw ?line "lit ''  PDF document ''"]
  from n have "\<forall>p \<in> set (split demo_raw [13]). 13 \<notin> set p"
    by blast
  with m have "13 \<notin> set (lit ''U2|||Doc,Two|||PDF document'')"
    by blast
  moreover from n have "join_with (lit ''|||'') (split (lit ''U2|||Doc,Two|||PDF document'') (lit ''|||''))
          = lit ''U2|||Doc,Two|||PDF document''"
    by blast
  moreover from n have "parse_children demo_raw
     = [\<lparr>item_uuid = Some (lit ''U1''), item_name = Some (lit ''Doc One''),
          item_kind = Some (lit ''markdown'')\<rparr>,
        \<lparr>item_uuid = Some (lit ''U2''), item_name = Some (lit ''Doc,Two''),
          item_kind = Some (lit ''PDF document'')\<rparr>]"
    by blast
  moreover from n have "parse_children (demo_raw @ [13]) = parse_children demo_raw"
    and "join_with [13] (split demo_raw [13]) = demo_raw"
    by blast+
  moreover have "item_kind (parse_line ?line) = Some (lit ''PDF document'')"
  proof -
    from n2 have "item_kind (parse_line ?line)
       = (if 3 \<le> length (split ?line (lit ''|||'')) then Some (trim (split ?line (lit ''|||'') ! 2))
          else None)"
      by blast
    moreover have "split ?line (lit ''|||'')
        = [[32] @ lit ''U2 '', [9] @ lit ''Doc,Two'' @ [160], lit ''  PDF document '']"
      by code_simp
    moreover have "trim (lit ''  PDF document '') = lit ''PDF document''"
      by code_simp
    ultimately show ?thesis by simp
  qed
  moreover have "\<not> is_space (hd (lit ''PDF document'')) \<and> \<not> is_space (last (lit ''PDF document''))"
  proof -
    have "trim (lit ''  PDF document '') = lit ''PDF document''" by code_simp
    moreover have "lit ''PDF document'' \<noteq> []" by (simp add: lit_def)
    moreover from n have "trim (lit ''  PDF document '') \<noteq> []
        \<longrightarrow> \<not> is_space (hd (trim (lit ''  PDF document '')))
          \<and> \<not> is_space (last (trim (lit ''  PDF document '')))"
      by blast
    ultimately show ?thesis by simp
  qed
  moreover have "is_space 9 \<and> is_space 32 \<and> is_space 160 \<and> \<not> is_space 124"
  proof -
    from n have "Collect is_space
       = {9, 10, 11, 12, 13, 32, 160, 5760, 8232, 8233, 8239, 8287, 12288, 65279}
         \<union> {8192..8202}"
      by blast
    then have "\<And>c. is_space c \<longleftrightarrow> c \<in> {9, 10, 11, 12, 13, 32, 160, 5760, 8232, 8233, 8239, 8287, 12288, 65279}
         \<union> {8192..8202}"
      by blast
    then show ?thesis by simp
  qed
  ultimately show ?thesis by simp
qed


section \<open>The search loop\<close>

lemma fetch_search_Inr:
  assumes "fst (fetch_search w a s) = Inr d"
  shows "d = search_script (search w (String_of (arg_query a))) (dbFilter_of (arg_database a))
               (search_safeLimit a) (num_or (arg_excerpt_chars a) 600)"
proof -
  from assms obtain out s' where r: "runJXA w (search_builder a) 30000 s = (Inr out, s')"
    and o: "out = SearchOut d"
    by (auto simp: fetch_search_def split: prod.splits sum.splits printed.splits)
  from r obtain p where "run_script w JavaScript (search_builder a) = Inr p" "out = trimmed p"
    unfolding runJXA_def by (blast dest: run_file_Inr)
  with o show ?thesis by (cases p) (simp_all add: search_builder_def)
qed

lemma search_loop_database:
  assumes "db \<noteq> []" "\<forall>r \<in> set out. database r = db"
  shows "\<forall>r \<in> set (search_loop (Some db) limit excerptLen raw out). database r = db"
  using assms(2)
proof (induction raw arbitrary: out)
  case Nil
  then show ?case by simp
next
  case (Cons x raw)
  show ?case
  proof (cases "rec_database x = db")
    case True
    then have "\<forall>r \<in> set (out @ [result_of x excerptLen]). database r = db"
      using Cons.prems by (simp add: result_of_def Let_def)
    from Cons.IH [OF this] Cons.IH [OF Cons.prems] Cons.prems True assms(1)
    show ?thesis by simp
  next
    case False
    with Cons.IH [OF Cons.prems] Cons.prems assms(1) show ?thesis by simp
  qed
qed

lemma search_loop_bound:
  assumes "limit \<le> of_nat n" "length out \<le> n"
  shows "length (search_loop dbFilter limit excerptLen raw out) \<le> n"
  using assms(2)
proof (induction raw arbitrary: out)
  case Nil
  then show ?case by simp
next
  case (Cons x raw)
  have "length (out @ [result_of x excerptLen]) \<le> n" if "of_nat (length out) < limit"
  proof -
    from that assms(1) have "(of_nat (length out) :: rat) < of_nat n" by simp
    then have "length out < n" by (simp only: of_nat_less_iff)
    then show ?thesis by simp
  qed
  with Cons show ?case by simp
qed

lemma search_loop_passing:
  assumes "db \<noteq> []"
  shows "length (search_loop (Some db) limit excerptLen raw out)
         \<le> length out + length (filter (\<lambda>r. rec_database r = db) raw)"
proof (induction raw arbitrary: out)
  case Nil
  show ?case by simp
next
  case (Cons x raw)
  show ?case
    using Cons [of out] Cons [of "out @ [result_of x excerptLen]"] assms by simp
qed

section \<open>C4: the database filter\<close>

lemma below_limit: "(of_nat n :: rat) < limit \<longleftrightarrow> n < nat \<lceil>limit\<rceil>"
proof -
  have "(of_nat n :: rat) < limit \<longleftrightarrow> of_int (int n) < limit" by simp
  also have "\<dots> \<longleftrightarrow> int n < \<lceil>limit\<rceil>" by (simp only: less_ceiling_iff)
  also have "\<dots> \<longleftrightarrow> n < nat \<lceil>limit\<rceil>" by (simp only: zless_nat_eq_int_zless)
  finally show ?thesis .
qed

lemma search_loop_eq:
  assumes "db \<noteq> []"
  shows "search_loop (Some db) limit excerptLen raw out
         = out @ map (\<lambda>r. result_of r excerptLen)
                   (take (nat \<lceil>limit\<rceil> - length out) (filter (\<lambda>r. rec_database r = db) raw))"
proof (induction raw arbitrary: out)
  case Nil
  show ?case by simp
next
  case (Cons x raw)
  show ?case
  proof (cases "of_nat (length out) < limit")
    case False
    then have "nat \<lceil>limit\<rceil> - length out = 0" by (simp add: below_limit)
    with False show ?thesis by simp
  next
    case True
    then have lt: "length out < nat \<lceil>limit\<rceil>" by (simp add: below_limit)
    show ?thesis
    proof (cases "rec_database x = db")
      case False
      with True assms Cons [of out] show ?thesis by simp
    next
      case same: True
      from lt have "nat \<lceil>limit\<rceil> - length out = Suc (nat \<lceil>limit\<rceil> - Suc (length out))" by simp
      with True same assms Cons [of "out @ [result_of x excerptLen]"] show ?thesis by simp
    qed
  qed
qed

lemma empty_database_is_omitted:
  "search_builder (a\<lparr>arg_database := Some []\<rparr>) = search_builder (a\<lparr>arg_database := None\<rparr>)"
  by (simp add: search_builder_def dbFilter_of_def search_safeLimit_def)

text \<open>
  Claim C4. A request specifies a database name when its \<open>database\<close> argument is a non-empty
  string: the builder's \<open>database || null\<close> and the script's \<open>dbFilter && ...\<close> take the empty
  string for an omitted argument, and such a request runs the very script of the request
  without the argument. For every \<open>search_with_excerpts\<close> request that specifies a database
  name, every result of the returned list has that database name, whatever databases the
  matches of the global search come from: the results are the first matches of the global
  search that have the requested database name, as many as the effective limit allows.
\<close>

theorem database_filter:
  assumes "fst (fetch_search w a s) = Inr d" and "arg_database a = Some db" and "db \<noteq> []"
  shows "(\<forall>r \<in> set (results d). database r = db)
     \<and> results d
         = map (\<lambda>r. result_of r (num_or (arg_excerpt_chars a) 600))
             (take (nat \<lceil>search_safeLimit a\<rceil>)
                (filter (\<lambda>r. rec_database r = db) (search w (String_of (arg_query a)))))
     \<and> fetch_search w (a\<lparr>arg_database := Some []\<rparr>) s
         = fetch_search w (a\<lparr>arg_database := None\<rparr>) s"
proof -
  have f: "dbFilter_of (arg_database a) = Some db"
    using assms(2,3) by (simp add: dbFilter_of_def)
  with fetch_search_Inr [OF assms(1)] search_loop_database [OF assms(3), of "[]"]
  have "\<forall>r \<in> set (results d). database r = db"
    by (simp add: search_script_def Let_def)
  moreover have "results d
         = map (\<lambda>r. result_of r (num_or (arg_excerpt_chars a) 600))
             (take (nat \<lceil>search_safeLimit a\<rceil>)
                (filter (\<lambda>r. rec_database r = db) (search w (String_of (arg_query a)))))"
    using fetch_search_Inr [OF assms(1)] f search_loop_eq [OF assms(3), of _ _ _ "[]"]
    by (simp add: search_script_def Let_def)
  moreover have "fetch_search w (a\<lparr>arg_database := Some []\<rparr>) s
         = fetch_search w (a\<lparr>arg_database := None\<rparr>) s"
    by (simp add: fetch_search_def empty_database_is_omitted)
  ultimately show ?thesis by blast
qed

theorem database_filter_witness:
  "fst (fetch_search demo_world (search_args (Some (lit ''Active_Work'')) None) demo_sys)
     = Inr (search_script demo_matches (Some (lit ''Active_Work'')) 10 600)
   \<and> length (results (search_script demo_matches (Some (lit ''Active_Work'')) 10 600)) = 2
   \<and> database (results (search_script demo_matches (Some (lit ''Active_Work'')) 10 600) ! 0)
       = lit ''Active_Work''
   \<and> database (results (search_script demo_matches (Some (lit ''Active_Work'')) 10 600) ! 1)
       = lit ''Active_Work''
   \<and> map rec_database demo_matches = [lit ''Active_Work'', lit ''Archive'', lit ''Active_Work'']"
proof -
  let ?d = "search_script demo_matches (Some (lit ''Active_Work'')) 10 600"
  have run: "fst (fetch_search demo_world (search_args (Some (lit ''Active_Work'')) None) demo_sys)
             = Inr ?d"
    by code_simp
  have db: "arg_database (search_args (Some (lit ''Active_Work'')) None) = Some (lit ''Active_Work'')"
    by (simp add: search_args_def no_args_def)
  have ne: "lit ''Active_Work'' \<noteq> []" by (simp add: lit_def)
  have len: "length (results ?d) = 2" by code_simp
  then have "results ?d ! 0 \<in> set (results ?d)" "results ?d ! 1 \<in> set (results ?d)"
    by simp_all
  moreover from database_filter [OF run db ne]
  have "\<forall>r \<in> set (results ?d). database r = lit ''Active_Work''" by blast
  moreover have "map rec_database demo_matches
      = [lit ''Active_Work'', lit ''Archive'', lit ''Active_Work'']"
    by code_simp
  ultimately show ?thesis using run len by blast
qed

text \<open>
  The request whose database is the empty string, on the example: it gets the matches of
  every database, as the request without the argument does.
\<close>

lemma empty_database_example:
  "arg_database (search_args (Some []) None) = Some []
   \<and> fst (fetch_search demo_world (search_args (Some []) None) demo_sys)
       = Inr (search_script demo_matches None 10 600)
   \<and> fst (fetch_search demo_world (search_args None None) demo_sys)
       = Inr (search_script demo_matches None 10 600)
   \<and> map database (results (search_script demo_matches None 10 600))
       = [lit ''Active_Work'', lit ''Archive'', lit ''Active_Work'']"
  by code_simp


section \<open>C5: caps and defaults\<close>

text \<open>
  Claim C5. The effective result limit of \<open>search_with_excerpts\<close> never exceeds 50 (a
  requested 9999 becomes 50, and at most 50 results are returned), the effective \<open>max_docs\<close>
  of \<open>get_group_context\<close> never exceeds 50 (a requested 9999 becomes 50), and an omitted
  parameter takes the default, 10 and 20. The effective values are the ones interpolated
  into the scripts.
\<close>

theorem limits_are_capped:
  "search_safeLimit a \<le> 50
   \<and> group_safeMaxDocs a \<le> 50
   \<and> (arg_limit a = Some 9999 \<longrightarrow> search_safeLimit a = 50)
   \<and> (arg_max_docs a = Some 9999 \<longrightarrow> group_safeMaxDocs a = 50)
   \<and> (arg_limit a = None \<longrightarrow> search_safeLimit a = 10)
   \<and> (arg_max_docs a = None \<longrightarrow> group_safeMaxDocs a = 20)
   \<and> (\<exists>q f e. search_builder a = SearchScript q f (search_safeLimit a) e)
   \<and> (\<exists>p db. children_builder a = ChildrenScript p db (group_safeMaxDocs a))
   \<and> (fst (fetch_search w a s) = Inr d \<longrightarrow> length (results d) \<le> 50 \<and> returned d \<le> 50)"
proof -
  have "length (results d) \<le> 50 \<and> returned d \<le> 50" if "fst (fetch_search w a s) = Inr d"
  proof -
    have "search_safeLimit a \<le> of_nat 50" by (simp add: search_safeLimit_def)
    then have "length (search_loop (dbFilter_of (arg_database a)) (search_safeLimit a)
                  (num_or (arg_excerpt_chars a) 600) (search w (String_of (arg_query a))) []) \<le> 50"
      by (rule search_loop_bound) simp
    with fetch_search_Inr [OF that] show ?thesis by (simp add: search_script_def Let_def)
  qed
  then show ?thesis
    by (simp add: search_safeLimit_def group_safeMaxDocs_def num_or_def search_builder_def
          children_builder_def)
qed

theorem limits_are_capped_witness:
  "search_safeLimit (search_args None (Some 9999)) = 50
   \<and> group_safeMaxDocs (no_args\<lparr>arg_max_docs := Some 9999\<rparr>) = 50
   \<and> search_safeLimit no_args = 10
   \<and> group_safeMaxDocs no_args = 20
   \<and> fst (fetch_search demo_world (search_args None (Some 9999)) demo_sys)
       = Inr (search_script demo_matches None 50 600)
   \<and> length (results (search_script demo_matches None 50 600)) \<le> 50"
proof -
  have a: "arg_limit (search_args None (Some 9999)) = Some 9999"
    "arg_max_docs (no_args\<lparr>arg_max_docs := Some 9999\<rparr>) = Some 9999"
    "arg_limit no_args = None" "arg_max_docs no_args = None"
    by (simp_all add: search_args_def no_args_def)
  have run: "fst (fetch_search demo_world (search_args None (Some 9999)) demo_sys)
             = Inr (search_script demo_matches None 50 600)"
    by code_simp
  from limits_are_capped [of "search_args None (Some 9999)" demo_world demo_sys
      "search_script demo_matches None 50 600"]
    limits_are_capped [of "no_args\<lparr>arg_max_docs := Some 9999\<rparr>"]
    limits_are_capped [of no_args] a run
  show ?thesis by simp
qed

section \<open>C9: the reported total\<close>

text \<open>
  Claim C9. The count that a successful \<open>search_with_excerpts\<close> renders as \<open>Found N results\<close>
  is the number of matches of the global search, before the database filter; the number
  shown cannot exceed the number of matches that pass the filter, so the two counts differ
  when the matches come from several databases (3 against 2 in the example).
\<close>

theorem reported_total_is_unfiltered:
  assumes "searchWithExcerpts w a s = (Inr res, s')"
  shows "\<exists>d. fetch_search w a s = (Inr d, s')
     \<and> total d = length (search w (String_of (arg_query a)))
     \<and> returned d = length (results d)
     \<and> (\<forall>db. arg_database a = Some db \<and> db \<noteq> []
           \<longrightarrow> returned d \<le> length (filter (\<lambda>r. rec_database r = db)
                                      (search w (String_of (arg_query a)))))
     \<and> content_blocks res
         = [lit ''Found **'' @ show_nat (length (search w (String_of (arg_query a))))
            @ lit ''** results (showing '' @ show_nat (length (results d)) @ lit ''):''
            @ [10, 10] @ concat (map (render_result w) (results d))]"
proof -
  from assms obtain d where f: "fetch_search w a s = (Inr d, s')"
    and res: "res = text_result (render_search w d)"
    by (auto simp: searchWithExcerpts_def split: prod.splits sum.splits)
  from f have "fst (fetch_search w a s) = Inr d" by simp
  note d = fetch_search_Inr [OF this]
  have t: "total d = length (search w (String_of (arg_query a)))"
    and r: "returned d = length (results d)"
    by (subst d, simp add: search_script_def Let_def)+
  have p: "returned d \<le> length (filter (\<lambda>r. rec_database r = db)
                                      (search w (String_of (arg_query a))))"
    if "arg_database a = Some db" "db \<noteq> []" for db
  proof -
    have "dbFilter_of (arg_database a) = Some db" using that by (simp add: dbFilter_of_def)
    with search_loop_passing [OF that(2), of _ _ _ "[]"] show ?thesis
      by (subst d) (simp add: search_script_def Let_def)
  qed
  from f t r p show ?thesis
    by (simp add: res text_result_def render_search_def)
qed

theorem reported_total_is_unfiltered_witness:
  "\<exists>d. fetch_search demo_world (search_args (Some (lit ''Active_Work'')) None) demo_sys
         = (Inr d, snd (searchWithExcerpts demo_world (search_args (Some (lit ''Active_Work'')) None) demo_sys))
     \<and> total d = 3 \<and> returned d = 2
     \<and> length (filter (\<lambda>r. rec_database r = lit ''Active_Work'') demo_matches) = 2"
proof -
  let ?a = "search_args (Some (lit ''Active_Work'')) None"
  define res where "res = text_result (render_search demo_world
      (search_script demo_matches (Some (lit ''Active_Work'')) 10 600))"
  have "fst (searchWithExcerpts demo_world ?a demo_sys)
      = Inr (text_result (render_search demo_world
          (search_script demo_matches (Some (lit ''Active_Work'')) 10 600)))"
    by code_simp
  then have res: "fst (searchWithExcerpts demo_world ?a demo_sys) = Inr res"
    by (simp add: res_def)
  then have run: "searchWithExcerpts demo_world ?a demo_sys
      = (Inr res, snd (searchWithExcerpts demo_world ?a demo_sys))"
    by (metis prod.collapse)
  from reported_total_is_unfiltered [OF run]
  obtain d where d: "fetch_search demo_world ?a demo_sys
         = (Inr d, snd (searchWithExcerpts demo_world ?a demo_sys))"
     "total d = length (search demo_world (String_of (arg_query ?a)))"
     "returned d = length (results d)"
    by blast
  from d(1) have "fst (fetch_search demo_world ?a demo_sys) = Inr d" by simp
  moreover have "fst (fetch_search demo_world ?a demo_sys)
      = Inr (search_script demo_matches (Some (lit ''Active_Work'')) 10 600)"
    by code_simp
  ultimately have e: "d = search_script demo_matches (Some (lit ''Active_Work'')) 10 600" by simp
  have "length (results (search_script demo_matches (Some (lit ''Active_Work'')) 10 600)) = 2"
    by code_simp
  with d(3) e have "returned d = 2" by simp
  moreover have "total d = 3" using d(2) by (simp add: demo_world_def demo_matches_def)
  moreover have "length (filter (\<lambda>r. rec_database r = lit ''Active_Work'') demo_matches) = 2"
    by code_simp
  ultimately show ?thesis using d(1) by blast
qed


section \<open>C8: the temporary script file\<close>

lemma run_file_files: "files (snd (run_file w d tmp body t s)) = (files s)(tmp := None)"
  by (auto simp: run_file_def writeFileSync_def execFileSync_def unlinkSync_def Let_def
           split: option.splits sum.splits)

lemma run_file_log:
  "log (snd (run_file w d tmp body t s))
   = (if write_fails w tmp then log s
      else log s @ [\<lparr>inv_dialect = d, inv_path = tmp, inv_body = Some body, inv_timeout = t\<rparr>])"
  by (auto simp: run_file_def writeFileSync_def execFileSync_def unlinkSync_def Let_def
           split: option.splits sum.splits)

lemma read_show_nat: "foldl (\<lambda>acc d. 10 * acc + (d - 48)) 0 (show_nat n) = n"
proof (induction n rule: show_nat.induct)
  case (1 n)
  show ?case
  proof (cases "n < 10")
    case True
    then show ?thesis by (subst show_nat.simps) simp
  next
    case False
    with 1 show ?thesis by (subst show_nat.simps) simp
  qed
qed

lemma show_nat_inject: "show_nat m = show_nat n \<longleftrightarrow> m = n"
  by (metis read_show_nat)

lemma jxa_tmp_inject: "jxa_tmp w t1 = jxa_tmp w t2 \<longleftrightarrow> t1 = t2"
  by (simp add: jxa_tmp_def join_def show_nat_inject)

lemma as_tmp_inject: "as_tmp w t1 = as_tmp w t2 \<longleftrightarrow> t1 = t2"
  by (simp add: as_tmp_def join_def show_nat_inject)

lemma jxa_tmp_not_as_tmp: "jxa_tmp w t1 \<noteq> as_tmp w t2"
  by (simp add: jxa_tmp_def as_tmp_def join_def lit_def)

text \<open>
  Claim C8. Every invocation of either runner writes the script body to a temporary file
  named after the dialect and the clock reading, runs osascript on that file, and removes
  the file on every exit path: after the call the file does not exist, whether the process
  succeeded, exited non-zero or was killed at the timeout, and no other file has changed.
  The invocation that is logged ran the body that was passed in. Two clock readings never
  give the same name, and the two runners never share a name.
\<close>

theorem temp_file_removed:
  "files (snd (runJXA w body t s)) = (files s)(jxa_tmp w (now s) := None)
   \<and> files (snd (runAppleScript w body t s)) = (files s)(as_tmp w (now s) := None)
   \<and> log (snd (runJXA w body t s))
       = (if write_fails w (jxa_tmp w (now s)) then log s
          else log s @ [\<lparr>inv_dialect = JavaScript, inv_path = jxa_tmp w (now s),
                          inv_body = Some body, inv_timeout = t\<rparr>])
   \<and> log (snd (runAppleScript w body t s))
       = (if write_fails w (as_tmp w (now s)) then log s
          else log s @ [\<lparr>inv_dialect = AppleScript, inv_path = as_tmp w (now s),
                          inv_body = Some body, inv_timeout = t\<rparr>])
   \<and> (jxa_tmp w t1 = jxa_tmp w t2 \<longleftrightarrow> t1 = t2)
   \<and> (as_tmp w t1 = as_tmp w t2 \<longleftrightarrow> t1 = t2)
   \<and> jxa_tmp w t1 \<noteq> as_tmp w t2"
  by (simp add: runJXA_def runAppleScript_def run_file_files run_file_log
        jxa_tmp_inject as_tmp_inject jxa_tmp_not_as_tmp)

theorem temp_file_removed_witness:
  "fst (runJXA demo_world (chunk_builder (page_args (lit ''U1'') 0 4)) 30000 demo_sys)
     = Inr (PageOut (chunked_read doc_one 0 4))
   \<and> fst (runJXA crash_world (chunk_builder (page_args (lit ''U1'') 0 4)) 30000 demo_sys)
       = Inl ProcessFailure
   \<and> fst (runJXA slow_world (chunk_builder (page_args (lit ''U1'') 0 4)) 30000 demo_sys)
       = Inl TimeoutFailure
   \<and> files (snd (runJXA demo_world (chunk_builder (page_args (lit ''U1'') 0 4)) 30000 demo_sys))
       (lit ''/tmp/dt-jxa-1730000000123.js'') = None
   \<and> files (snd (runJXA crash_world (chunk_builder (page_args (lit ''U1'') 0 4)) 30000 demo_sys))
       (lit ''/tmp/dt-jxa-1730000000123.js'') = None
   \<and> files (snd (runJXA slow_world (chunk_builder (page_args (lit ''U1'') 0 4)) 30000 demo_sys))
       (lit ''/tmp/dt-jxa-1730000000123.js'') = None"
proof -
  let ?b = "chunk_builder (page_args (lit ''U1'') 0 4)"
  have n: "jxa_tmp demo_world (now demo_sys) = lit ''/tmp/dt-jxa-1730000000123.js''"
    "jxa_tmp crash_world (now demo_sys) = lit ''/tmp/dt-jxa-1730000000123.js''"
    "jxa_tmp slow_world (now demo_sys) = lit ''/tmp/dt-jxa-1730000000123.js''"
    by code_simp+
  have r: "fst (runJXA demo_world ?b 30000 demo_sys) = Inr (PageOut (chunked_read doc_one 0 4))"
    "fst (runJXA crash_world ?b 30000 demo_sys) = Inl ProcessFailure"
    "fst (runJXA slow_world ?b 30000 demo_sys) = Inl TimeoutFailure"
    by code_simp+
  from temp_file_removed [of demo_world ?b 30000 demo_sys]
    temp_file_removed [of crash_world ?b 30000 demo_sys]
    temp_file_removed [of slow_world ?b 30000 demo_sys] n r
  show ?thesis by simp
qed


section \<open>C7: a group without usable children\<close>

lemma run_file_Inr_written:
  assumes "run_file w d tmp body t s = (Inr out, s')"
  shows "\<not> write_fails w tmp"
  using assms by (auto simp: run_file_def writeFileSync_def split: if_splits)

lemma runAppleScript_Inr_log:
  assumes "runAppleScript w body t s = (Inr out, s1)"
  shows "log s1 = log s @ [\<lparr>inv_dialect = AppleScript, inv_path = as_tmp w (now s),
                             inv_body = Some body, inv_timeout = t\<rparr>]"
proof -
  from assms have "\<not> write_fails w (as_tmp w (now s))"
    unfolding runAppleScript_def by (rule run_file_Inr_written)
  moreover have "log s1 = log (snd (runAppleScript w body t s))" using assms by simp
  ultimately show ?thesis by (simp add: runAppleScript_def run_file_log)
qed

text \<open>
  Claim C7, with the message the code gives in each case. When phase 1 of
  \<open>get_group_context\<close> yields no usable child, the handler starts no phase-2 batch fetch:
  the only invocation logged is the navigation one. For an empty (trimmed) output it
  answers \<open>Group "..." in "..." is empty or not found.\<close>; for an output in which no record
  survives the identity-and-name filter it answers \<open>No documents found in "...".\<close>
\<close>

theorem no_children_no_batch:
  assumes "runAppleScript w (children_builder a) 30000 s = (Inr (TextOut asResult), s1)"
    and "asResult = [] \<or> parse_children asResult = []"
  shows "getGroupContext w a s
         = (Inr (text_result (if asResult = [] then empty_or_not_found a
                              else no_documents_found a)), s1)
       \<and> log s1 = log s @ [\<lparr>inv_dialect = AppleScript, inv_path = as_tmp w (now s),
                              inv_body = Some (children_builder a), inv_timeout = 30000\<rparr>]"
  using assms runAppleScript_Inr_log [OF assms(1)]
  by (auto simp: getGroupContext_def Let_def)

theorem no_children_no_batch_witness:
  "fst (getGroupContext empty_group_world group_args demo_sys)
     = Inr (text_result (lit ''Group '' @ [34] @ lit ''/Projects'' @ [34] @ lit '' in '' @ [34]
          @ lit ''Active_Work'' @ [34] @ lit '' is empty or not found.''))
   \<and> map inv_dialect (log (snd (getGroupContext empty_group_world group_args demo_sys)))
       = [AppleScript]"
proof -
  let ?s1 = "snd (runAppleScript empty_group_world (children_builder group_args) 30000 demo_sys)"
  have "fst (runAppleScript empty_group_world (children_builder group_args) 30000 demo_sys)
        = Inr (TextOut [])"
    by code_simp
  then have run: "runAppleScript empty_group_world (children_builder group_args) 30000 demo_sys
        = (Inr (TextOut []), ?s1)"
    by (metis prod.collapse)
  have m: "empty_or_not_found group_args
        = lit ''Group '' @ [34] @ lit ''/Projects'' @ [34] @ lit '' in '' @ [34]
          @ lit ''Active_Work'' @ [34] @ lit '' is empty or not found.''"
    by (simp add: empty_or_not_found_def group_args_def no_args_def String_of_def)
  have l: "log demo_sys = []" by (simp add: demo_sys_def)
  from no_children_no_batch [OF run] m l show ?thesis by simp
qed

text \<open>
  A navigation output whose only record has an empty name is not empty, and no child of it
  survives the filter: the answer is the second message, not the "empty or not found" one.
\<close>

theorem blank_name_counterexample:
  "fst (runAppleScript blank_name_world (children_builder group_args) 30000 demo_sys)
     = Inr (TextOut (lit ''U1||||||markdown''))
   \<and> parse_children (lit ''U1||||||markdown'') = []
   \<and> fst (getGroupContext blank_name_world group_args demo_sys)
       = Inr (text_result (lit ''No documents found in '' @ [34] @ lit ''/Projects'' @ [34] @ lit ''.''))
   \<and> empty_or_not_found group_args
       = lit ''Group '' @ [34] @ lit ''/Projects'' @ [34] @ lit '' in '' @ [34]
         @ lit ''Active_Work'' @ [34] @ lit '' is empty or not found.''
   \<and> fst (getGroupContext blank_name_world group_args demo_sys)
       \<noteq> Inr (text_result (empty_or_not_found group_args))"
  by code_simp

section \<open>C6: failures become error results\<close>

text \<open>
  Claim C6. Whatever failure a tool handler throws, the request handler catches it and
  returns one text content block, flagged as an error, that carries the failure's message;
  in particular \<open>get_content_chunked\<close> on an identity that does not resolve ends in such a
  block for the NotFound failure. The request handler returns a result for every input.
\<close>

theorem dispatch_catches:
  "(searchWithExcerpts w a s = (Inl f, s')
      \<longrightarrow> dispatch w (lit ''dt_search_with_excerpts'') a s
          = (\<lparr>content_blocks = [lit ''Error: '' @ message w f], isError = True\<rparr>, s'))
   \<and> (getContentChunked w a s = (Inl f, s')
      \<longrightarrow> dispatch w (lit ''dt_get_content_chunked'') a s
          = (\<lparr>content_blocks = [lit ''Error: '' @ message w f], isError = True\<rparr>, s'))
   \<and> (getGroupContext w a s = (Inl f, s')
      \<longrightarrow> dispatch w (lit ''dt_get_group_context'') a s
          = (\<lparr>content_blocks = [lit ''Error: '' @ message w f], isError = True\<rparr>, s'))
   \<and> (getRecordWithUuid w (String_of (arg_uuid a)) = None
        \<and> \<not> write_fails w (jxa_tmp w (now s)) \<and> \<not> crash w JavaScript (chunk_builder a)
        \<and> elapsed w JavaScript (chunk_builder a) \<le> 30000
      \<longrightarrow> fst (getContentChunked w a s) = Inl (NotFound (String_of (arg_uuid a)))
        \<and> fst (dispatch w (lit ''dt_get_content_chunked'') a s)
            = \<lparr>content_blocks = [lit ''Error: '' @ message w (NotFound (String_of (arg_uuid a)))],
               isError = True\<rparr>)"
proof -
  have names: "lit ''dt_get_content_chunked'' \<noteq> lit ''dt_search_with_excerpts''"
    "lit ''dt_get_group_context'' \<noteq> lit ''dt_search_with_excerpts''"
    "lit ''dt_get_group_context'' \<noteq> lit ''dt_get_content_chunked''"
    by (simp_all add: lit_def)
  have nf: "fst (getContentChunked w a s) = Inl (NotFound (String_of (arg_uuid a)))"
    if "getRecordWithUuid w (String_of (arg_uuid a)) = None"
      "\<not> write_fails w (jxa_tmp w (now s))" "\<not> crash w JavaScript (chunk_builder a)"
      "elapsed w JavaScript (chunk_builder a) \<le> 30000"
  proof -
    have "fst (runJXA w (chunk_builder a) 30000 s)
          = map_sum id trimmed (run_script w JavaScript (chunk_builder a))"
      unfolding runJXA_def using that(2-4) by (rule run_file_healthy)
    also have "\<dots> = Inl (NotFound (String_of (arg_uuid a)))"
      using that(1) by (simp add: chunk_builder_def)
    finally show ?thesis
      by (cases "runJXA w (chunk_builder a) 30000 s")
         (simp add: getContentChunked_def fetch_page_def)
  qed
  have "fst (dispatch w (lit ''dt_get_content_chunked'') a s)
            = \<lparr>content_blocks = [lit ''Error: '' @ message w (NotFound (String_of (arg_uuid a)))],
               isError = True\<rparr>"
    if "fst (getContentChunked w a s) = Inl (NotFound (String_of (arg_uuid a)))"
    using that names
    by (cases "getContentChunked w a s") (simp add: dispatch_def catch_def error_result_def)
  with nf show ?thesis
    using names by (simp add: dispatch_def catch_def error_result_def)
qed

theorem dispatch_catches_witness:
  "fst (getContentChunked demo_world (page_args (lit ''U9'') 0 4000) demo_sys)
     = Inl (NotFound (lit ''U9''))
   \<and> fst (dispatch demo_world (lit ''dt_get_content_chunked'') (page_args (lit ''U9'') 0 4000) demo_sys)
       = \<lparr>content_blocks = [lit ''Error: Record not found: U9''], isError = True\<rparr>
   \<and> fst (dispatch slow_world (lit ''dt_search_with_excerpts'') (search_args None None) demo_sys)
       = \<lparr>content_blocks = [lit ''Error: spawnSync osascript ETIMEDOUT''], isError = True\<rparr>"
proof -
  let ?a = "page_args (lit ''U9'') 0 4000"
  have h: "getRecordWithUuid demo_world (String_of (arg_uuid ?a)) = None
        \<and> \<not> write_fails demo_world (jxa_tmp demo_world (now demo_sys))
        \<and> \<not> crash demo_world JavaScript (chunk_builder ?a)
        \<and> elapsed demo_world JavaScript (chunk_builder ?a) \<le> 30000"
    by (simp add: demo_world_def page_args_def no_args_def String_of_def lit_def)
  have u: "String_of (arg_uuid ?a) = lit ''U9''"
    by (simp add: page_args_def no_args_def String_of_def)
  have m: "lit ''Error: '' @ message demo_world (NotFound (lit ''U9'')) = lit ''Error: Record not found: U9''"
    by (simp add: demo_world_def lit_def)
  obtain s' where t: "searchWithExcerpts slow_world (search_args None None) demo_sys
      = (Inl TimeoutFailure, s')"
  proof -
    have "fst (searchWithExcerpts slow_world (search_args None None) demo_sys) = Inl TimeoutFailure"
      by code_simp
    then show ?thesis using that by (metis prod.collapse)
  qed
  have m2: "lit ''Error: '' @ message slow_world TimeoutFailure = lit ''Error: spawnSync osascript ETIMEDOUT''"
    by (simp add: slow_world_def demo_world_def lit_def)
  from dispatch_catches [of demo_world ?a demo_sys] h u m
    dispatch_catches [of slow_world "search_args None None" demo_sys TimeoutFailure s'] t m2
  show ?thesis by simp
qed


section \<open>C10: a record without extractable text\<close>

lemma chunked_read_no_text:
  assumes "extracted r = []"
  shows "content (chunked_read r offs n) = []" "total_chars (chunked_read r offs n) = 0"
    "chunk_length (chunked_read r offs n) = 0" "next_offset (chunked_read r offs n) = offs"
    "has_more (chunked_read r offs n) \<longleftrightarrow> offs < 0"
proof -
  have sub: "substring (extracted r) offs (offs + n) = []"
    by (simp add: assms substring_def Let_def)
  show "content (chunked_read r offs n) = []" "total_chars (chunked_read r offs n) = 0"
    "chunk_length (chunked_read r offs n) = 0" "next_offset (chunked_read r offs n) = offs"
    "has_more (chunked_read r offs n) \<longleftrightarrow> offs < 0"
    by (simp_all add: chunked_read_def Let_def sub) (simp_all add: assms)
qed

text \<open>
  Claim C10, for offsets that are not negative. When the record resolves, its plain-text
  extraction throws or yields nothing, the effective offset is at least 0 and the
  invocation meets no runtime fault, \<open>get_content_chunked\<close> does not fail: the page has empty
  content, \<open>total_chars = 0\<close>, \<open>chunk_length = 0\<close> and \<open>has_more = false\<close>, and the result is
  a normal content block, not an error.
\<close>

theorem empty_page_when_extraction_fails:
  assumes "getRecordWithUuid w (String_of (arg_uuid a)) = Some r"
    and "plainText r = Throws \<or> plainText r = Absent \<or> plainText r = Text []"
    and "\<not> write_fails w (jxa_tmp w (now s))" "\<not> crash w JavaScript (chunk_builder a)"
      "elapsed w JavaScript (chunk_builder a) \<le> 30000"
    and "0 \<le> num_or (arg_offset a) 0"
  shows "\<exists>d. fst (fetch_page w a s) = Inr d
     \<and> content d = [] \<and> total_chars d = 0 \<and> chunk_length d = 0 \<and> \<not> has_more d
     \<and> fst (getContentChunked w a s) = Inr (text_result (render_page w d))
     \<and> fst (dispatch w (lit ''dt_get_content_chunked'') a s)
         = \<lparr>content_blocks = [render_page w d], isError = False\<rparr>"
proof -
  define d where "d = chunked_read r (num_or (arg_offset a) 0) (num_or (arg_limit a) 4000)"
  have e: "extracted r = []"
    using assms(2) by (auto simp: extracted_def)
  have "fst (runJXA w (chunk_builder a) 30000 s)
        = map_sum id trimmed (run_script w JavaScript (chunk_builder a))"
    unfolding runJXA_def using assms(3-5) by (rule run_file_healthy)
  also have "\<dots> = Inr (PageOut d)"
    using assms(1) by (simp add: chunk_builder_def d_def)
  finally have run: "fst (runJXA w (chunk_builder a) 30000 s) = Inr (PageOut d)" .
  then have f: "fst (fetch_page w a s) = Inr d"
    by (cases "runJXA w (chunk_builder a) 30000 s") (simp add: fetch_page_def)
  then have g: "fst (getContentChunked w a s) = Inr (text_result (render_page w d))"
    by (cases "fetch_page w a s") (simp add: getContentChunked_def)
  have names: "lit ''dt_get_content_chunked'' \<noteq> lit ''dt_search_with_excerpts''"
    by (simp add: lit_def)
  from g have "fst (dispatch w (lit ''dt_get_content_chunked'') a s)
         = \<lparr>content_blocks = [render_page w d], isError = False\<rparr>"
    using names
    by (cases "getContentChunked w a s") (simp add: dispatch_def catch_def text_result_def)
  moreover have "content d = []" "total_chars d = 0" "chunk_length d = 0" "\<not> has_more d"
    using chunked_read_no_text [OF e] assms(6) by (simp_all add: d_def)
  ultimately show ?thesis using f g by blast
qed

theorem empty_page_when_extraction_fails_witness:
  "\<exists>d. fst (fetch_page demo_world (page_args (lit ''U2'') 0 4000) demo_sys) = Inr d
     \<and> content d = [] \<and> total_chars d = 0 \<and> chunk_length d = 0 \<and> \<not> has_more d
     \<and> fst (dispatch demo_world (lit ''dt_get_content_chunked'') (page_args (lit ''U2'') 0 4000) demo_sys)
         = \<lparr>content_blocks = [render_page demo_world d], isError = False\<rparr>"
proof -
  let ?a = "page_args (lit ''U2'') 0 4000"
  have r: "getRecordWithUuid demo_world (String_of (arg_uuid ?a)) = Some doc_two"
    by (simp add: demo_world_def page_args_def no_args_def String_of_def lit_def)
  have p: "plainText doc_two = Throws \<or> plainText doc_two = Absent \<or> plainText doc_two = Text []"
    by (simp add: doc_two_def)
  have h: "\<not> write_fails demo_world (jxa_tmp demo_world (now demo_sys))"
    "\<not> crash demo_world JavaScript (chunk_builder ?a)"
    "elapsed demo_world JavaScript (chunk_builder ?a) \<le> 30000"
    by (simp_all add: demo_world_def)
  have o: "0 \<le> num_or (arg_offset ?a) 0"
    by (simp add: page_args_def no_args_def num_or_def)
  from empty_page_when_extraction_fails [OF r p h o] show ?thesis by blast
qed

text \<open>
  \<open>has_more\<close> is \<open>offset + 0 < 0\<close> on such a record: a negative offset reports more to read.
\<close>

theorem negative_offset_counterexample:
  "getRecordWithUuid demo_world (lit ''U2'') = Some doc_two
   \<and> plainText doc_two = Throws
   \<and> fst (fetch_page demo_world (page_args (lit ''U2'') (- 1) 4000) demo_sys)
       = Inr (chunked_read doc_two (- 1) 4000)
   \<and> content (chunked_read doc_two (- 1) 4000) = []
   \<and> total_chars (chunked_read doc_two (- 1) 4000) = 0
   \<and> has_more (chunked_read doc_two (- 1) 4000)"
  by code_simp

end
